theory Spec2Isabelle
  imports Main "HOL-Library.Log_Nat" "HOL-Library.Multiset"
begin

section \<open>Python values used by the two CSV tools\<close>

text \<open>
  The repository holds two variants of one command-line CSV tool: the functions of
  \<^verbatim>\<open>main.py\<close> (rows are dictionaries of raw text) and the class
  \<^verbatim>\<open>CSVProcessor\<close> of \<^verbatim>\<open>test_csv.py\<close> (cells are converted to
  \<^verbatim>\<open>float\<close> once, when the file is read).  Both are embedded here as pure functions;
  every exception the source can raise is a value of type \<open>error\<close>.

  A Python \<^verbatim>\<open>str\<close> is a \<open>string\<close> whose characters are read as code points below
  256.  A Python \<^verbatim>\<open>float\<close> is an IEEE binary64 number: a finite value is kept as the
  rational it denotes, next to the two infinities and NaN.  The two zeros are identified
  (Python compares them equal and no function below divides by a cell).
\<close>

datatype pyfloat = Fin rat | PInf | NInf | NaN

text \<open>A cell after conversion: \<^verbatim>\<open>Union[str, float]\<close>.\<close>

datatype cell = Num pyfloat | Text string

text \<open>
  The exceptions.  All but \<open>KeyError\<close> and \<open>TypeError\<close> are Python
  \<^verbatim>\<open>ValueError\<close>s; they are told apart by where they are raised:
  \<^item> \<open>InvalidCondition\<close>: the filter expression has no usable operator
    (\<^verbatim>\<open>parse_condition\<close>, \<^verbatim>\<open>_parse_condition\<close>);
  \<^item> \<open>InvalidOrderFormat\<close>, \<open>InvalidAggFormat\<close>: no \<^verbatim>\<open>=\<close> in the expression
    (\<^verbatim>\<open>main.py\<close>);
  \<^item> \<open>UnsupportedFunction\<close>, \<open>UnknownOperation\<close>: the aggregation function is not known
    (\<^verbatim>\<open>main.py\<close>, \<^verbatim>\<open>CSVProcessor\<close>);
  \<^item> \<open>ColumnNotNumeric\<close>: \<^verbatim>\<open>main.py\<close>'s aggregate met a cell that is not a number;
  \<^item> \<open>InvalidDirection\<close>: \<^verbatim>\<open>CSVProcessor.sort_data\<close>, direction neither asc nor desc;
  \<^item> \<open>FloatValueError\<close>: \<^verbatim>\<open>float(s)\<close> on text that is not a number;
  \<^item> \<open>EmptySequence\<close>: \<^verbatim>\<open>min([])\<close> or \<^verbatim>\<open>max([])\<close>;
  \<^item> \<open>UnpackError\<close>: \<^verbatim>\<open>a, b = parts\<close> where \<^verbatim>\<open>parts\<close> has not two elements.
\<close>

datatype error =
    InvalidCondition
  | InvalidOrderFormat
  | InvalidAggFormat
  | UnsupportedFunction string
  | UnknownOperation string
  | ColumnNotNumeric string
  | InvalidDirection
  | FloatValueError
  | EmptySequence
  | UnpackError
  | KeyError string
  | TypeError

subsection \<open>Strings: strip, lower, split\<close>

text \<open>\<^verbatim>\<open>str.isspace\<close> on the code points below 256.\<close>

definition is_space :: "char \<Rightarrow> bool" where
  "is_space c = (of_char c \<in> {9, 10, 11, 12, 13, 28, 29, 30, 31, 32, 133, 160 :: nat})"

definition strip :: "string \<Rightarrow> string" where
  "strip s = rev (dropWhile is_space (rev (dropWhile is_space s)))"

text \<open>\<^verbatim>\<open>str.lower\<close> on the code points below 256: A-Z, and the Latin-1 capitals
  192-222 without the multiplication sign 215.\<close>

definition lower_char :: "char \<Rightarrow> char" where
  "lower_char c =
     (let n = (of_char c :: nat)
      in if (65 \<le> n \<and> n \<le> 90) \<or> (192 \<le> n \<and> n \<le> 222 \<and> n \<noteq> 215)
         then char_of (n + 32) else c)"

definition lower :: "string \<Rightarrow> string" where
  "lower s = map lower_char s"

text \<open>\<^verbatim>\<open>s.split(c, 1)\<close> when \<^verbatim>\<open>c in s\<close>: the text before and after the first
  \<^verbatim>\<open>c\<close>.\<close>

definition split1 :: "char \<Rightarrow> string \<Rightarrow> string \<times> string" where
  "split1 c s = (takeWhile (\<lambda>x. x \<noteq> c) s, drop 1 (dropWhile (\<lambda>x. x \<noteq> c) s))"

text \<open>\<^verbatim>\<open>s.split(c)\<close>: the parts between all occurrences of \<^verbatim>\<open>c\<close>.\<close>

fun split_all :: "char \<Rightarrow> string \<Rightarrow> string list" where
  "split_all c [] = [[]]"
| "split_all c (x # xs) =
     (if x = c then [] # split_all c xs
      else (case split_all c xs of [] \<Rightarrow> [[x]] | p # ps \<Rightarrow> (x # p) # ps))"

text \<open>Python's \<^verbatim>\<open><\<close> on \<^verbatim>\<open>str\<close>: lexicographic on code points.\<close>

fun str_lt :: "string \<Rightarrow> string \<Rightarrow> bool" where
  "str_lt [] [] = False"
| "str_lt [] (y # ys) = True"
| "str_lt (x # xs) [] = False"
| "str_lt (x # xs) (y # ys) =
     ((of_char x :: nat) < of_char y \<or> (x = y \<and> str_lt xs ys))"

subsection \<open>Floats: rounding to binary64, arithmetic, comparison\<close>

definition pow2 :: "int \<Rightarrow> rat" where
  "pow2 k = (if 0 \<le> k then 2 ^ nat k else 1 / 2 ^ nat (- k))"

text \<open>The binary exponent of a positive rational \<open>a\<close>: the \<open>e\<close> with
  \<open>2^e \<le> a < 2^(e+1)\<close>.  For \<open>a \<ge> 1\<close> it is the bit length of
  \<open>\<lfloor>a\<rfloor>\<close> less one; for \<open>a < 1\<close> it is \<open>- n\<close> for the least \<open>n\<close> with
  \<open>1 / a \<le> 2^n\<close>, the bit length of \<open>\<lceil>1 / a\<rceil> - 1\<close>.\<close>

definition ilog2 :: "rat \<Rightarrow> int" where
  "ilog2 a =
     (if 1 \<le> a then int (floorlog 2 (nat \<lfloor>a\<rfloor>)) - 1
      else - int (floorlog 2 (nat (\<lceil>1 / a\<rceil> - 1))))"

definition round_half_even :: "rat \<Rightarrow> int" where
  "round_half_even q =
     (let f = \<lfloor>q\<rfloor>; d = q - of_int f
      in if d < 1 / 2 then f
         else if 1 / 2 < d then f + 1
         else if even f then f else f + 1)"

text \<open>Round-to-nearest, ties-to-even, to a 53-bit significand with exponents from
  \<open>-1022\<close> (subnormals below) up to \<open>1023\<close>; larger magnitudes overflow to
  infinity.\<close>

definition round64 :: "rat \<Rightarrow> pyfloat" where
  "round64 q =
     (if q = 0 then Fin 0
      else
        let a = \<bar>q\<bar>;
            e = max (ilog2 a) (- 1022);
            u = pow2 (e - 52);
            r = of_int (round_half_even (a / u)) * u
        in if pow2 1024 \<le> r then (if 0 < q then PInf else NInf)
           else Fin (if 0 < q then r else - r))"

fun fadd :: "pyfloat \<Rightarrow> pyfloat \<Rightarrow> pyfloat" where
  "fadd NaN _ = NaN"
| "fadd _ NaN = NaN"
| "fadd PInf NInf = NaN"
| "fadd NInf PInf = NaN"
| "fadd PInf _ = PInf"
| "fadd _ PInf = PInf"
| "fadd NInf _ = NInf"
| "fadd _ NInf = NInf"
| "fadd (Fin a) (Fin b) = round64 (a + b)"

text \<open>\<^verbatim>\<open>x / n\<close> for a float \<^verbatim>\<open>x\<close> and a list length \<^verbatim>\<open>n > 0\<close>.\<close>

fun fdiv_len :: "pyfloat \<Rightarrow> nat \<Rightarrow> pyfloat" where
  "fdiv_len (Fin a) n = round64 (a / of_nat n)"
| "fdiv_len x n = x"

fun flt :: "pyfloat \<Rightarrow> pyfloat \<Rightarrow> bool" where
  "flt NaN _ = False"
| "flt _ NaN = False"
| "flt (Fin a) (Fin b) = (a < b)"
| "flt NInf NInf = False"
| "flt NInf _ = True"
| "flt _ NInf = False"
| "flt PInf _ = False"
| "flt _ PInf = True"

fun feq :: "pyfloat \<Rightarrow> pyfloat \<Rightarrow> bool" where
  "feq NaN _ = False"
| "feq _ NaN = False"
| "feq x y = (x = y)"


text \<open>\<^verbatim>\<open>sum(values)\<close>: from the integer 0, adding left to right, each addition
  rounded.  (CPython from 3.12 on also carries a compensation term for the rounding
  errors; on the sums that are evaluated below both give the same float.)\<close>

definition fsum :: "pyfloat list \<Rightarrow> pyfloat" where
  "fsum vs = foldl fadd (Fin 0) vs"

text \<open>\<^verbatim>\<open>min(values)\<close> and \<^verbatim>\<open>max(values)\<close> keep the first element and replace it
  by a later one that is strictly smaller (larger); on an empty list they raise.\<close>

definition min_py :: "pyfloat list \<Rightarrow> error + pyfloat" where
  "min_py vs = (case vs of [] \<Rightarrow> Inl EmptySequence
                | v # rest \<Rightarrow> Inr (foldl (\<lambda>m x. if flt x m then x else m) v rest))"

definition max_py :: "pyfloat list \<Rightarrow> error + pyfloat" where
  "max_py vs = (case vs of [] \<Rightarrow> Inl EmptySequence
                | v # rest \<Rightarrow> Inr (foldl (\<lambda>m x. if flt m x then x else m) v rest))"

subsection \<open>\<^verbatim>\<open>float(s)\<close> on text\<close>

definition is_digit :: "char \<Rightarrow> bool" where
  "is_digit c = (48 \<le> (of_char c :: nat) \<and> (of_char c :: nat) \<le> 57)"

definition digits_nat :: "string \<Rightarrow> nat" where
  "digits_nat ds = foldl (\<lambda>n c. 10 * n + (of_char c - 48)) 0 ds"

text \<open>An underscore is accepted only between two digits; \<open>prev\<close> is the character
  before.\<close>

fun underscores_ok :: "char \<Rightarrow> string \<Rightarrow> bool" where
  "underscores_ok prev [] = (prev \<noteq> CHR ''_'')"
| "underscores_ok prev (c # cs) =
     (if c = CHR ''_'' then is_digit prev \<and> underscores_ok c cs
      else if prev = CHR ''_'' then is_digit c \<and> underscores_ok c cs
      else underscores_ok c cs)"

definition pow10 :: "int \<Rightarrow> rat" where
  "pow10 k = (if 0 \<le> k then 10 ^ nat k else 1 / 10 ^ nat (- k))"

text \<open>The exponent part, after the mantissa: empty, or \<^verbatim>\<open>e\<close>/\<^verbatim>\<open>E\<close>, an optional
  sign and at least one digit.\<close>

definition parse_exponent :: "string \<Rightarrow> int option" where
  "parse_exponent s =
     (case s of
        [] \<Rightarrow> Some 0
      | c # r \<Rightarrow>
          if c = CHR ''e'' \<or> c = CHR ''E'' then
            (let neg = (case r of [] \<Rightarrow> False | x # _ \<Rightarrow> x = CHR ''-'');
                 ds = (case r of [] \<Rightarrow> []
                       | x # t \<Rightarrow> if x = CHR ''-'' \<or> x = CHR ''+'' then t else r)
             in if ds \<noteq> [] \<and> list_all is_digit ds
                then Some (if neg then - int (digits_nat ds) else int (digits_nat ds))
                else None)
          else None)"

text \<open>An unsigned decimal: digits, an optional point and digits (at least one digit in
  all), an optional exponent.  The result is the exact rational.\<close>

definition parse_decimal :: "string \<Rightarrow> rat option" where
  "parse_decimal s =
     (let ip = takeWhile is_digit s; r1 = dropWhile is_digit s;
          has_point = (case r1 of [] \<Rightarrow> False | c # _ \<Rightarrow> c = CHR ''.'');
          fp = (if has_point then takeWhile is_digit (drop 1 r1) else []);
          r2 = (if has_point then dropWhile is_digit (drop 1 r1) else r1)
      in if ip = [] \<and> fp = [] then None
         else (case parse_exponent r2 of
                 None \<Rightarrow> None
               | Some e \<Rightarrow>
                   Some (of_nat (digits_nat (ip @ fp)) * pow10 (e - int (length fp)))))"

text \<open>After the sign: \<^verbatim>\<open>inf\<close>, \<^verbatim>\<open>infinity\<close> or \<^verbatim>\<open>nan\<close> in any case, or a
  decimal, which is rounded to the nearest binary64.\<close>

definition parse_unsigned :: "bool \<Rightarrow> string \<Rightarrow> pyfloat option" where
  "parse_unsigned neg s =
     (if lower s = ''inf'' \<or> lower s = ''infinity'' then Some (if neg then NInf else PInf)
      else if lower s = ''nan'' then Some NaN
      else (case parse_decimal s of
              None \<Rightarrow> None
            | Some q \<Rightarrow> Some (round64 (if neg then - q else q))))"

text \<open>The white space \<^verbatim>\<open>float\<close> skips at both ends of its argument.  It is
  narrower than that of \<^verbatim>\<open>str.strip\<close>: code points above 127 that are spaces
  (133 and 160) are read as blanks, but of the ASCII characters only tab, line feed,
  vertical tab, form feed, carriage return and the blank count, so the separators
  28 to 31 make the text not a number.\<close>

definition is_float_space :: "char \<Rightarrow> bool" where
  "is_float_space c = (of_char c \<in> {9, 10, 11, 12, 13, 32, 133, 160 :: nat})"

definition float_strip :: "string \<Rightarrow> string" where
  "float_strip s = rev (dropWhile is_float_space (rev (dropWhile is_float_space s)))"

text \<open>\<^verbatim>\<open>float(s)\<close>: \<open>None\<close> stands for the \<^verbatim>\<open>ValueError\<close> Python raises on
  text that is not a number.\<close>

definition float_py :: "string \<Rightarrow> pyfloat option" where
  "float_py s =
     (if \<not> underscores_ok (CHR 0x00) s then None
      else
        (case float_strip (filter (\<lambda>c. c \<noteq> CHR ''_'') s) of
           [] \<Rightarrow> None
         | c # r \<Rightarrow>
             if c = CHR ''-'' then parse_unsigned True r
             else if c = CHR ''+'' then parse_unsigned False r
             else parse_unsigned False (c # r)))"

subsection \<open>Comparison operators, comprehensions and \<^verbatim>\<open>sorted\<close>\<close>

text \<open>\<^verbatim>\<open>operator.gt\<close>, \<^verbatim>\<open>operator.lt\<close>, \<^verbatim>\<open>operator.eq\<close>.\<close>

datatype cmp_op = Gt | Lt | Eq

text \<open>\<^verbatim>\<open>op(a, b)\<close> on two values that are each a float or a str.  Equality of a float
  and a str is \<^verbatim>\<open>False\<close>; ordering them raises \<^verbatim>\<open>TypeError\<close>.\<close>

fun apply_op :: "cmp_op \<Rightarrow> cell \<Rightarrow> cell \<Rightarrow> error + bool" where
  "apply_op Eq (Num a) (Num b) = Inr (feq a b)"
| "apply_op Eq (Text a) (Text b) = Inr (a = b)"
| "apply_op Eq _ _ = Inr False"
| "apply_op Gt (Num a) (Num b) = Inr (flt b a)"
| "apply_op Gt (Text a) (Text b) = Inr (str_lt b a)"
| "apply_op Gt _ _ = Inl TypeError"
| "apply_op Lt (Num a) (Num b) = Inr (flt a b)"
| "apply_op Lt (Text a) (Text b) = Inr (str_lt a b)"
| "apply_op Lt _ _ = Inl TypeError"

text \<open>A list comprehension \<^verbatim>\<open>[x for x in xs if p(x)]\<close> and a list of keys
  \<^verbatim>\<open>[f(x) for x in xs]\<close>, where \<^verbatim>\<open>p\<close> and \<^verbatim>\<open>f\<close> can raise: the first
  exception, in list order, ends the evaluation.\<close>

fun filter_err :: "('a \<Rightarrow> error + bool) \<Rightarrow> 'a list \<Rightarrow> error + 'a list" where
  "filter_err p [] = Inr []"
| "filter_err p (x # xs) =
     (case p x of
        Inl e \<Rightarrow> Inl e
      | Inr b \<Rightarrow>
          (case filter_err p xs of
             Inl e \<Rightarrow> Inl e
           | Inr ys \<Rightarrow> Inr (if b then x # ys else ys)))"

fun map_err :: "('a \<Rightarrow> error + 'b) \<Rightarrow> 'a list \<Rightarrow> error + 'b list" where
  "map_err f [] = Inr []"
| "map_err f (x # xs) =
     (case f x of
        Inl e \<Rightarrow> Inl e
      | Inr y \<Rightarrow>
          (case map_err f xs of
             Inl e \<Rightarrow> Inl e
           | Inr ys \<Rightarrow> Inr (y # ys)))"

text \<open>
  \<^verbatim>\<open>sorted(xs, key=..., reverse=...)\<close> on a list of (key, element) pairs.  Python's
  sort is stable and uses only \<^verbatim>\<open><\<close> on the keys; with \<^verbatim>\<open>reverse=True\<close> it
  reverses the list, sorts it, and reverses the result, so equal keys keep their
  original order in both directions.  The stable sort is written as an insertion sort:
  an element is put in front of the first element that is not smaller than it.  Wherever
  \<^verbatim>\<open><\<close> is a strict weak order on the keys (text keys, and float keys without NaN),
  every stable sort returns this same list, so it is the list Python returns.  With a NaN
  among the keys \<^verbatim>\<open><\<close> is no such order: Python still returns a permutation of
  the rows, but which one depends on the comparisons its merge sort happens to make,
  and the order of \<open>sorted_py\<close> is then not Python's.  For such keys only the
  multiset of the result is used below; every statement about the order of a result is
  about keys without NaN.
\<close>

fun insort_key :: "('k \<Rightarrow> 'k \<Rightarrow> bool) \<Rightarrow> 'k \<times> 'a \<Rightarrow> ('k \<times> 'a) list \<Rightarrow> ('k \<times> 'a) list" where
  "insort_key lt x [] = [x]"
| "insort_key lt x (y # ys) =
     (if lt (fst y) (fst x) then y # insort_key lt x ys else x # y # ys)"

fun stable_sort :: "('k \<Rightarrow> 'k \<Rightarrow> bool) \<Rightarrow> ('k \<times> 'a) list \<Rightarrow> ('k \<times> 'a) list" where
  "stable_sort lt [] = []"
| "stable_sort lt (x # xs) = insort_key lt x (stable_sort lt xs)"

definition sorted_py :: "('k \<Rightarrow> 'k \<Rightarrow> bool) \<Rightarrow> bool \<Rightarrow> ('k \<times> 'a) list \<Rightarrow> 'a list" where
  "sorted_py lt reverse kxs =
     map snd (if reverse then rev (stable_sort lt (rev kxs)) else stable_sort lt kxs)"

section \<open>\<^verbatim>\<open>main.py\<close>\<close>

text \<open>A row as \<^verbatim>\<open>csv.DictReader\<close> yields it, \<^verbatim>\<open>Dict[str, str]\<close>: the columns in
  header order, each with its raw text.\<close>

type_synonym row = "(string \<times> string) list"

text \<open>\<^verbatim>\<open>row[col]\<close>.\<close>

definition getitem :: "(string \<times> 'v) list \<Rightarrow> string \<Rightarrow> error + 'v" where
  "getitem r col = (case map_of r col of None \<Rightarrow> Inl (KeyError col) | Some v \<Rightarrow> Inr v)"

text \<open>The dictionary \<^verbatim>\<open>OPERATORS\<close>, in its insertion order.\<close>

definition OPERATORS :: "(char \<times> cmp_op) list" where
  "OPERATORS = [(CHR ''>'', Gt), (CHR ''<'', Lt), (CHR ''='', Eq)]"

text \<open>The loop of \<^verbatim>\<open>parse_condition\<close> over the operators that are left.\<close>

fun parse_condition_from :: "(char \<times> cmp_op) list \<Rightarrow> string \<Rightarrow> error + (string \<times> cmp_op \<times> string)" where
  "parse_condition_from [] cond = Inl InvalidCondition"
| "parse_condition_from ((c, op) # ops) cond =
     (if c \<in> set cond
      then Inr (strip (fst (split1 c cond)), op, strip (snd (split1 c cond)))
      else parse_condition_from ops cond)"

definition parse_condition :: "string \<Rightarrow> error + (string \<times> cmp_op \<times> string)" where
  "parse_condition cond = parse_condition_from OPERATORS cond"

text \<open>\<^verbatim>\<open>parse_order\<close> returns the column and whether the direction is \<^verbatim>\<open>asc\<close>.\<close>

definition parse_order :: "string \<Rightarrow> error + (string \<times> bool)" where
  "parse_order order_str =
     (if CHR ''='' \<notin> set order_str then Inl InvalidOrderFormat
      else Inr (strip (fst (split1 CHR ''='' order_str)),
                lower (strip (snd (split1 CHR ''='' order_str))) = ''asc''))"

text \<open>
  \<^verbatim>\<open>filter_rows\<close>.  The \<^verbatim>\<open>try\<close> block converts the literal and then every cell; a
  \<^verbatim>\<open>ValueError\<close> of either conversion leads to the \<^verbatim>\<open>except\<close> block, which
  compares the raw cell text with \<^verbatim>\<open>val\<close>.  There \<^verbatim>\<open>val\<close> is the literal's text
  when the literal is not a number, and the float already assigned to it when a cell
  failed to convert.
\<close>

definition filter_rows :: "row list \<Rightarrow> string option \<Rightarrow> error + row list" where
  "filter_rows rows condition =
     (case condition of
        None \<Rightarrow> Inr rows
      | Some cond \<Rightarrow>
          if cond = [] then Inr rows
          else
            (case parse_condition cond of
               Inl e \<Rightarrow> Inl e
             | Inr (col, op, lit) \<Rightarrow>
                 (case float_py lit of
                    None \<Rightarrow>
                      filter_err (\<lambda>r. case getitem r col of
                                         Inl e \<Rightarrow> Inl e
                                       | Inr s \<Rightarrow> apply_op op (Text s) (Text lit)) rows
                  | Some v \<Rightarrow>
                      (case filter_err (\<lambda>r. case getitem r col of
                                                Inl e \<Rightarrow> Inl e
                                              | Inr s \<Rightarrow>
                                                  (case float_py s of
                                                     None \<Rightarrow> Inl FloatValueError
                                                   | Some x \<Rightarrow> apply_op op (Num x) (Num v))) rows of
                         Inl FloatValueError \<Rightarrow>
                           filter_err (\<lambda>r. case getitem r col of
                                              Inl e \<Rightarrow> Inl e
                                            | Inr s \<Rightarrow> apply_op op (Text s) (Num v)) rows
                       | Inl e \<Rightarrow> Inl e
                       | Inr kept \<Rightarrow> Inr kept))))"

text \<open>The dictionary \<^verbatim>\<open>AGGREGATIONS\<close>.  A result \<open>None\<close> is Python's
  \<^verbatim>\<open>None\<close>, which \<^verbatim>\<open>avg\<close> returns for an empty list.\<close>

definition AGGREGATIONS :: "string \<Rightarrow> (pyfloat list \<Rightarrow> error + pyfloat option) option" where
  "AGGREGATIONS name =
     (if name = ''avg''
      then Some (\<lambda>vs. Inr (if vs \<noteq> [] then Some (fdiv_len (fsum vs) (length vs)) else None))
      else if name = ''min''
      then Some (\<lambda>vs. case min_py vs of Inl e \<Rightarrow> Inl e | Inr m \<Rightarrow> Inr (Some m))
      else if name = ''max''
      then Some (\<lambda>vs. case max_py vs of Inl e \<Rightarrow> Inl e | Inr m \<Rightarrow> Inr (Some m))
      else None)"

text \<open>\<^verbatim>\<open>aggregate\<close> returns the one-entry dictionary \<^verbatim>\<open>{func: result}\<close>, here the
  pair.  A cell that is not a number makes it raise; a missing column is a
  \<^verbatim>\<open>KeyError\<close>, which the \<^verbatim>\<open>except ValueError\<close> does not catch.\<close>

definition aggregate :: "row list \<Rightarrow> string \<Rightarrow> error + (string \<times> pyfloat option)" where
  "aggregate rows instruction =
     (if CHR ''='' \<notin> set instruction then Inl InvalidAggFormat
      else
        let col = fst (split1 CHR ''='' instruction);
            func = lower (strip (snd (split1 CHR ''='' instruction)))
        in (case AGGREGATIONS func of
              None \<Rightarrow> Inl (UnsupportedFunction func)
            | Some f \<Rightarrow>
                (case map_err (\<lambda>r. case getitem r (strip col) of
                                      Inl e \<Rightarrow> Inl e
                                    | Inr s \<Rightarrow>
                                        (case float_py s of
                                           None \<Rightarrow> Inl FloatValueError
                                         | Some x \<Rightarrow> Inr x)) rows of
                   Inl FloatValueError \<Rightarrow> Inl (ColumnNotNumeric col)
                 | Inl e \<Rightarrow> Inl e
                 | Inr vs \<Rightarrow>
                     (case f vs of Inl e \<Rightarrow> Inl e | Inr res \<Rightarrow> Inr (func, res)))))"

text \<open>\<^verbatim>\<open>sort_data\<close>: float keys first; when a cell is not a number, the raw text as
  key.\<close>

definition sort_data :: "row list \<Rightarrow> string option \<Rightarrow> error + row list" where
  "sort_data rows order =
     (case order of
        None \<Rightarrow> Inr rows
      | Some ord_str \<Rightarrow>
          if ord_str = [] then Inr rows
          else
            (case parse_order ord_str of
               Inl e \<Rightarrow> Inl e
             | Inr (col, asc) \<Rightarrow>
                 (case map_err (\<lambda>r. case getitem r col of
                                       Inl e \<Rightarrow> Inl e
                                     | Inr s \<Rightarrow>
                                         (case float_py s of
                                            None \<Rightarrow> Inl FloatValueError
                                          | Some x \<Rightarrow> Inr x)) rows of
                    Inr ks \<Rightarrow> Inr (sorted_py flt (\<not> asc) (zip ks rows))
                  | Inl FloatValueError \<Rightarrow>
                      (case map_err (\<lambda>r. getitem r col) rows of
                         Inl e \<Rightarrow> Inl e
                       | Inr ks \<Rightarrow> Inr (sorted_py str_lt (\<not> asc) (zip ks rows)))
                  | Inl e \<Rightarrow> Inl e)))"

section \<open>The class \<^verbatim>\<open>CSVProcessor\<close>\<close>

text \<open>A converted row, \<^verbatim>\<open>Dict[str, Union[str, float]]\<close>, and the object with its
  two fields.  \<^verbatim>\<open>row.get(column)\<close> is \<open>map_of row column\<close>: \<open>None\<close> when the row
  has no such column.\<close>

type_synonym crow = "(string \<times> cell) list"

record CSVProcessor =
  filename :: string
  data :: "crow list"

text \<open>The conversion written out in \<^verbatim>\<open>_convert_numeric_values\<close> and again in
  \<^verbatim>\<open>_parse_condition\<close>: \<^verbatim>\<open>float(value)\<close> when it is accepted, the text unchanged
  when it raises \<^verbatim>\<open>ValueError\<close>.\<close>

definition coerce :: "string \<Rightarrow> cell" where
  "coerce s = (case float_py s of Some x \<Rightarrow> Num x | None \<Rightarrow> Text s)"

text \<open>\<^verbatim>\<open>_convert_numeric_values\<close> converts every cell of a row.\<close>

definition convert_numeric_values :: "row \<Rightarrow> crow" where
  "convert_numeric_values r = map (\<lambda>(k, v). (k, coerce v)) r"

text \<open>\<^verbatim>\<open>__init__\<close> with \<^verbatim>\<open>_read_csv\<close>; the rows the reader yields for the file are
  given.\<close>

definition CSVProcessor_init :: "string \<Rightarrow> row list \<Rightarrow> CSVProcessor" where
  "CSVProcessor_init fname reader = \<lparr>filename = fname, data = map convert_numeric_values reader\<rparr>"

text \<open>The loop of \<^verbatim>\<open>_parse_condition\<close>: an operator is taken only when splitting at
  all its occurrences gives two parts; otherwise the next operator is tried.\<close>

fun CSVProcessor_parse_condition_from :: "(char \<times> cmp_op) list \<Rightarrow> string \<Rightarrow> error + (string \<times> cmp_op \<times> cell)" where
  "CSVProcessor_parse_condition_from [] condition = Inl InvalidCondition"
| "CSVProcessor_parse_condition_from ((c, op) # ops) condition =
     (if c \<in> set condition
      then (case split_all c condition of
              [p0, p1] \<Rightarrow>
                Inr (strip p0, op, coerce (strip p1))
            | _ \<Rightarrow> CSVProcessor_parse_condition_from ops condition)
      else CSVProcessor_parse_condition_from ops condition)"

definition CSVProcessor_parse_condition :: "string \<Rightarrow> error + (string \<times> cmp_op \<times> cell)" where
  "CSVProcessor_parse_condition condition =
     CSVProcessor_parse_condition_from [(CHR ''>'', Gt), (CHR ''<'', Lt), (CHR ''='', Eq)] condition"

text \<open>One round of the loop of \<^verbatim>\<open>filter_data\<close>: whether the row is appended.  A row
  without the column is skipped.  For \<^verbatim>\<open>>\<close> and \<^verbatim>\<open><\<close> the
  \<^verbatim>\<open>isinstance\<close> test comes first, so a text cell is never compared; a float cell is
  compared with the literal whatever the literal is.\<close>

fun row_matches :: "cmp_op \<Rightarrow> cell \<Rightarrow> cell option \<Rightarrow> error + bool" where
  "row_matches op lit None = Inr False"
| "row_matches Eq lit (Some rv) = apply_op Eq rv lit"
| "row_matches op lit (Some (Text s)) = Inr False"
| "row_matches op lit (Some (Num x)) = apply_op op (Num x) lit"

definition CSVProcessor_filter_data :: "CSVProcessor \<Rightarrow> string \<Rightarrow> error + crow list" where
  "CSVProcessor_filter_data self condition =
     (case CSVProcessor_parse_condition condition of
        Inl e \<Rightarrow> Inl e
      | Inr (column, op, lit) \<Rightarrow>
          filter_err (\<lambda>r. row_matches op lit (map_of r column)) (data self))"

text \<open>\<^verbatim>\<open>data if data else self.data\<close>: the object's rows are used when the argument is
  \<^verbatim>\<open>None\<close>, and also when it is an empty list.\<close>

definition data_or_self :: "CSVProcessor \<Rightarrow> crow list option \<Rightarrow> crow list" where
  "data_or_self self arg =
     (case arg of None \<Rightarrow> data self | Some d \<Rightarrow> if d = [] then data self else d)"

text \<open>The comprehension of \<^verbatim>\<open>aggregate\<close>: the float cells of the column, in row
  order.\<close>

fun numeric_values :: "string \<Rightarrow> crow list \<Rightarrow> pyfloat list" where
  "numeric_values column [] = []"
| "numeric_values column (r # rs) =
     (case map_of r column of
        Some (Num x) \<Rightarrow> x # numeric_values column rs
      | _ \<Rightarrow> numeric_values column rs)"

text \<open>\<^verbatim>\<open>CSVProcessor.aggregate\<close>; the result \<^verbatim>\<open>{operation: result}\<close> is the pair.
  The empty list of values is answered before the operation is looked up.\<close>

definition CSVProcessor_aggregate :: "CSVProcessor \<Rightarrow> string \<Rightarrow> crow list option \<Rightarrow> error + (string \<times> pyfloat)" where
  "CSVProcessor_aggregate self aggregation arg =
     (case split_all CHR ''='' aggregation of
        [p0, p1] \<Rightarrow>
          let column = strip p0; operation = lower (strip p1);
              vs = numeric_values column (data_or_self self arg)
          in if vs = [] then Inr (operation, Fin 0)
             else if operation = ''avg'' then Inr (operation, fdiv_len (fsum vs) (length vs))
             else if operation = ''min''
             then (case min_py vs of Inl e \<Rightarrow> Inl e | Inr m \<Rightarrow> Inr (operation, m))
             else if operation = ''max''
             then (case max_py vs of Inl e \<Rightarrow> Inl e | Inr m \<Rightarrow> Inr (operation, m))
             else Inl (UnknownOperation operation)
      | _ \<Rightarrow> Inl UnpackError)"

text \<open>
  The sort key of \<^verbatim>\<open>sort_data\<close> is the tuple \<^verbatim>\<open>(value is None, value)\<close>, with
  \<^verbatim>\<open>float(value)\<close> in place of \<^verbatim>\<open>value\<close> when the column counts as numeric;
  \<^verbatim>\<open>float(None)\<close> raises \<^verbatim>\<open>TypeError\<close>.
\<close>

type_synonym sort_key = "bool \<times> cell option"

definition is_num :: "cell \<Rightarrow> bool" where
  "is_num v = (case v of Num _ \<Rightarrow> True | Text _ \<Rightarrow> False)"

definition column_is_numeric :: "string \<Rightarrow> crow list \<Rightarrow> bool" where
  "column_is_numeric column rs =
     list_all (\<lambda>r. case map_of r column of None \<Rightarrow> True | Some v \<Rightarrow> is_num v) rs"

definition sort_key :: "string \<Rightarrow> bool \<Rightarrow> crow \<Rightarrow> error + sort_key" where
  "sort_key column is_numeric r =
     (case map_of r column of
        None \<Rightarrow> if is_numeric then Inl TypeError else Inr (True, None)
      | Some (Num x) \<Rightarrow> Inr (False, Some (Num x))
      | Some (Text s) \<Rightarrow>
          if is_numeric
          then (case float_py s of
                  None \<Rightarrow> Inl FloatValueError
                | Some x \<Rightarrow> Inr (False, Some (Num x)))
          else Inr (False, Some (Text s)))"

text \<open>\<^verbatim>\<open><\<close> on two keys: the first components decide when they differ
  (\<^verbatim>\<open>False < True\<close>); otherwise the values are compared, and two \<^verbatim>\<open>None\<close> are
  equal.\<close>

fun key_lt :: "sort_key \<Rightarrow> sort_key \<Rightarrow> bool" where
  "key_lt (a, v) (b, w) =
     (if a \<noteq> b then b
      else (case (v, w) of
              (Some (Num x), Some (Num y)) \<Rightarrow> flt x y
            | (Some (Text s), Some (Text t)) \<Rightarrow> str_lt s t
            | _ \<Rightarrow> False))"

text \<open>
  Ordering a float key and a text key raises \<^verbatim>\<open>TypeError\<close>.  A comparison sort
  cannot order a list that holds both without comparing one with the other, so the
  sort raises exactly when both kinds of key are present.
\<close>

definition mixed_keys :: "sort_key list \<Rightarrow> bool" where
  "mixed_keys ks =
     (list_ex (\<lambda>k. case snd k of Some (Num _) \<Rightarrow> True | _ \<Rightarrow> False) ks \<and>
      list_ex (\<lambda>k. case snd k of Some (Text _) \<Rightarrow> True | _ \<Rightarrow> False) ks)"

definition CSVProcessor_sort_data :: "CSVProcessor \<Rightarrow> string \<Rightarrow> crow list option \<Rightarrow> error + crow list" where
  "CSVProcessor_sort_data self order_by arg =
     (case split_all CHR ''='' order_by of
        [p0, p1] \<Rightarrow>
          let column = strip p0; direction = lower (strip p1)
          in if direction \<noteq> ''asc'' \<and> direction \<noteq> ''desc'' then Inl InvalidDirection
             else
               let data_to_sort = data_or_self self arg;
                   is_numeric = column_is_numeric column data_to_sort
               in (case map_err (sort_key column is_numeric) data_to_sort of
                     Inl e \<Rightarrow> Inl e
                   | Inr ks \<Rightarrow>
                       if mixed_keys ks then Inl TypeError
                       else Inr (sorted_py key_lt (direction = ''desc'') (zip ks data_to_sort)))
      | _ \<Rightarrow> Inl UnpackError)"

section \<open>Evaluation lemmas\<close>

lemma floor_rat_numeral: "\<lfloor>numeral a / numeral b :: rat\<rfloor> = numeral a div numeral b"
  by (metis floor_divide_of_int_eq of_int_numeral)

lemma ceiling_rat_numeral: "\<lceil>numeral a / numeral b :: rat\<rceil> = - (- numeral a div numeral b)"
  by (metis ceiling_divide_eq_div of_int_numeral)

lemma floorlog_2_numeral: "floorlog 2 (numeral n) = floorlog 2 (numeral n div 2) + 1"
  by (subst compute_floorlog) simp

lemma floorlog_2_small: "floorlog 2 0 = 0" "floorlog 2 1 = 1" "floorlog 2 (Suc 0) = 1"
  by (simp_all add: compute_floorlog)

lemmas str_defs = strip_def is_space_def lower_def lower_char_def split1_def
  char_of_def bit_Suc_0_iff

lemmas float_defs = float_py_def float_strip_def is_float_space_def
  parse_unsigned_def parse_decimal_def parse_exponent_def
  digits_nat_def is_digit_def pow10_def round64_def round_half_even_def ilog2_def pow2_def
  floorlog_2_numeral floorlog_2_small Let_def floor_rat_numeral ceiling_rat_numeral

lemma float_py_1: "float_py ''1'' = Some (Fin 1)"
  by (simp add: float_defs str_defs)

lemma float_py_2: "float_py ''2'' = Some (Fin 2)"
  by (simp add: float_defs str_defs)

lemma float_py_5: "float_py ''5'' = Some (Fin 5)"
  by (simp add: float_defs str_defs)

lemma float_py_999: "float_py ''999'' = Some (Fin 999)"
  by (simp add: float_defs str_defs)

lemma float_py_abc: "float_py ''abc'' = None"
  by (simp add: float_defs str_defs)

lemma float_py_a: "float_py ''a'' = None"
  by (simp add: float_defs str_defs)

lemma float_py_b: "float_py ''b'' = None"
  by (simp add: float_defs str_defs)



section \<open>Empty aggregation in \<^verbatim>\<open>main.py\<close>\<close>

text \<open>
  Claim C3.  When no value is collected, the three functions are to follow one policy
  and none is to fail with an unrelated error.  In \<^verbatim>\<open>main.py\<close> the only dataset
  with no collected value is the empty one (every row either contributes or raises), and
  there \<^verbatim>\<open>avg\<close> returns Python's \<^verbatim>\<open>None\<close> while \<^verbatim>\<open>min\<close> and \<^verbatim>\<open>max\<close>
  raise the \<^verbatim>\<open>ValueError\<close> of the built-in on an empty sequence.
\<close>

theorem aggregate_empty_inconsistent:
  "aggregate [] ''price=avg'' = Inr (''avg'', None) \<and>
   aggregate [] ''price=min'' = Inl EmptySequence \<and>
   aggregate [] ''price=max'' = Inl EmptySequence"
  by (simp add: aggregate_def AGGREGATIONS_def str_defs min_py_def max_py_def)

section \<open>Sorting returns the rows it was given\<close>

lemma mset_insort_key: "mset (insort_key lt x ys) = add_mset x (mset ys)"
  by (induction ys) simp_all

lemma mset_stable_sort: "mset (stable_sort lt xs) = mset xs"
  by (induction xs) (simp_all add: mset_insort_key)

lemma mset_sorted_py: "mset (sorted_py lt reverse kxs) = mset (map snd kxs)"
proof -
  have "mset (if reverse then rev (stable_sort lt (rev kxs)) else stable_sort lt kxs) = mset kxs"
    by (simp add: mset_stable_sort)
  then show ?thesis
    unfolding sorted_py_def by (metis mset_map)
qed

lemma map_err_length: "map_err f xs = Inr ys \<Longrightarrow> length ys = length xs"
  by (induction xs arbitrary: ys) (auto split: sum.splits)

lemma mset_sorted_py_zip:
  assumes "map_err f xs = Inr ks"
  shows "mset (sorted_py lt reverse (zip ks xs)) = mset xs"
  using map_err_length [OF assms] by (simp add: mset_sorted_py)

lemma sort_data_mset:
  assumes "sort_data rows order = Inr res"
  shows "mset res = mset rows"
proof (cases order)
  case None
  with assms show ?thesis by (simp add: sort_data_def)
next
  case (Some ord_str)
  show ?thesis
  proof (cases "ord_str = []")
    case True
    with assms Some show ?thesis by (simp add: sort_data_def)
  next
    case False
    with assms Some show ?thesis
      by (auto simp: sort_data_def mset_sorted_py_zip split: sum.splits error.splits prod.splits)
  qed
qed

lemma CSVProcessor_sort_data_mset:
  assumes "CSVProcessor_sort_data self order_by arg = Inr res"
  shows "mset res = mset (data_or_self self arg)"
  using assms
  by (auto simp: CSVProcessor_sort_data_def Let_def mset_sorted_py_zip
           split: list.splits sum.splits if_splits)

text \<open>
  Claim C8.  The sort is to return a permutation of the dataset it is given.  Both sorts
  return a permutation of the rows they sort (the two lemmas above), but
  \<^verbatim>\<open>CSVProcessor.sort_data\<close> chooses these rows by \<^verbatim>\<open>data if data else ...\<close>: given
  the empty dataset, as after a filter that matched nothing, it sorts and returns all
  rows of the file, where its docstring promises this for \<^verbatim>\<open>None\<close> only.
\<close>

theorem CSVProcessor_sort_data_empty_argument:
  "CSVProcessor_sort_data \<lparr>filename = ''f'', data = [[(''c'', Num (Fin 1))]]\<rparr> ''c=asc'' (Some [])
     = Inr [[(''c'', Num (Fin 1))]] \<and>
   mset [[(''c'', Num (Fin 1))]] \<noteq> mset ([] :: crow list)"
  by (simp add: CSVProcessor_sort_data_def data_or_self_def column_is_numeric_def is_num_def
        sort_key_def mixed_keys_def sorted_py_def str_defs)

section \<open>Directions other than asc and desc\<close>

lemma parse_order_total:
  "CHR ''='' \<in> set order_str \<Longrightarrow> \<exists>col asc. parse_order order_str = Inr (col, asc)"
  by (simp add: parse_order_def)

lemma CSVProcessor_sort_data_direction:
  assumes "split_all CHR ''='' order_by = [p0, p1]"
    and "lower (strip p1) \<noteq> ''asc''" and "lower (strip p1) \<noteq> ''desc''"
  shows "CSVProcessor_sort_data self order_by arg = Inl InvalidDirection"
  using assms by (simp add: CSVProcessor_sort_data_def)

text \<open>
  Claim C5.  A direction that is neither asc nor desc is to be refused.
  \<^verbatim>\<open>CSVProcessor.sort_data\<close> refuses it (lemma \<open>CSVProcessor_sort_data_direction\<close>);
  \<^verbatim>\<open>parse_order\<close> of \<^verbatim>\<open>main.py\<close> only tests for \<^verbatim>\<open>asc\<close>, so
  \<^verbatim>\<open>sort_data\<close> sorts by any other direction as by \<^verbatim>\<open>desc\<close>.
\<close>

theorem sort_data_unknown_direction:
  "parse_order ''price=bogus'' = Inr (''price'', False) \<and>
   sort_data [[(''price'', ''1'')], [(''price'', ''2'')]] (Some ''price=bogus'')
     = Inr [[(''price'', ''2'')], [(''price'', ''1'')]] \<and>
   sort_data [[(''price'', ''1'')], [(''price'', ''2'')]] (Some ''price=desc'')
     = Inr [[(''price'', ''2'')], [(''price'', ''1'')]]"
  by (simp add: sort_data_def parse_order_def getitem_def sorted_py_def str_defs
        float_py_1 float_py_2)

section \<open>Splitting an expression at an operator\<close>

lemma split_all_not_Nil: "split_all c s \<noteq> []"
  by (induction s) (auto split: list.splits)

lemma length_split_all: "length (split_all c s) = Suc (count_list s c)"
proof (induction s)
  case Nil
  show ?case by simp
next
  case (Cons x xs)
  then show ?case
    using split_all_not_Nil [of c xs] by (cases "split_all c xs") auto
qed

lemma split_all_without: "c \<notin> set s \<Longrightarrow> split_all c s = [s]"
  by (induction s) auto

lemma split_all_first:
  "c \<in> set s \<Longrightarrow>
   split_all c s = fst (split1 c s) # split_all c (snd (split1 c s))"
proof (induction s)
  case Nil
  then show ?case by simp
next
  case (Cons x xs)
  show ?case
  proof (cases "x = c")
    case True
    then show ?thesis by (simp add: split1_def)
  next
    case False
    with Cons.prems have "c \<in> set xs" by simp
    from Cons.IH [OF this] False show ?thesis by (simp add: split1_def)
  qed
qed

lemma count_list_split1:
  "c \<in> set s \<Longrightarrow> count_list s c = Suc (count_list (snd (split1 c s)) c)"
  by (induction s) (auto simp: split1_def)

lemma split_all_once:
  assumes "count_list s c = 1"
  shows "split_all c s = [fst (split1 c s), snd (split1 c s)]"
proof -
  from assms have mem: "c \<in> set s"
    by (metis count_list_0_iff zero_neq_one)
  with assms have "count_list (snd (split1 c s)) c = 0"
    using count_list_split1 [of c s] by simp
  then have "c \<notin> set (snd (split1 c s))"
    by (simp add: count_list_0_iff)
  then show ?thesis
    using split_all_first [OF mem] by (simp add: split_all_without)
qed

lemma split_all_not_two:
  assumes "count_list s c \<noteq> 1"
  shows "length (split_all c s) \<noteq> 2"
  using assms by (simp add: length_split_all)

lemma CSVProcessor_parse_condition_step:
  "CSVProcessor_parse_condition_from ((c, op) # ops) s =
     (if count_list s c = 1
      then Inr (strip (fst (split1 c s)), op, coerce (strip (snd (split1 c s))))
      else CSVProcessor_parse_condition_from ops s)"
proof (cases "count_list s c = 1")
  case True
  then have "c \<in> set s"
    by (metis count_list_0_iff zero_neq_one)
  with True show ?thesis by (simp add: split_all_once)
next
  case False
  from split_all_not_two [OF this] have "\<nexists>a b. split_all c s = [a, b]"
    by auto
  with False show ?thesis
    by (auto split: list.splits)
qed

section \<open>What the condition parsers accept\<close>

text \<open>
  Claim C4, as amended.  Neither parser looks at whether the two parts are empty.
  \<^verbatim>\<open>parse_condition\<close> of \<^verbatim>\<open>main.py\<close> fails exactly when none of the three
  operator characters occurs; otherwise it splits at the first occurrence of the first
  operator, in the order \<^verbatim>\<open>>\<close>, \<^verbatim>\<open><\<close>, \<^verbatim>\<open>=\<close>, that occurs, and returns the
  trimmed column, the operator and the trimmed literal as text.
  \<^verbatim>\<open>CSVProcessor._parse_condition\<close> fails exactly when none of the three characters
  occurs exactly once; otherwise it takes the first operator, in the same order, that
  occurs exactly once, and returns the trimmed column, the operator and the trimmed
  literal, converted to a number when it is one.
\<close>

theorem parse_condition_accepts:
  "parse_condition s =
     (if CHR ''>'' \<in> set s
      then Inr (strip (fst (split1 CHR ''>'' s)), Gt, strip (snd (split1 CHR ''>'' s)))
      else if CHR ''<'' \<in> set s
      then Inr (strip (fst (split1 CHR ''<'' s)), Lt, strip (snd (split1 CHR ''<'' s)))
      else if CHR ''='' \<in> set s
      then Inr (strip (fst (split1 CHR ''='' s)), Eq, strip (snd (split1 CHR ''='' s)))
      else Inl InvalidCondition) \<and>
   CSVProcessor_parse_condition s =
     (if count_list s CHR ''>'' = 1
      then Inr (strip (fst (split1 CHR ''>'' s)), Gt, coerce (strip (snd (split1 CHR ''>'' s))))
      else if count_list s CHR ''<'' = 1
      then Inr (strip (fst (split1 CHR ''<'' s)), Lt, coerce (strip (snd (split1 CHR ''<'' s))))
      else if count_list s CHR ''='' = 1
      then Inr (strip (fst (split1 CHR ''='' s)), Eq, coerce (strip (snd (split1 CHR ''='' s))))
      else Inl InvalidCondition) \<and>
   (parse_condition s = Inl InvalidCondition) =
     (CHR ''>'' \<notin> set s \<and> CHR ''<'' \<notin> set s \<and> CHR ''='' \<notin> set s) \<and>
   (CSVProcessor_parse_condition s = Inl InvalidCondition) =
     (count_list s CHR ''>'' \<noteq> 1 \<and> count_list s CHR ''<'' \<noteq> 1 \<and> count_list s CHR ''='' \<noteq> 1)"
proof -
  have main: "parse_condition s =
     (if CHR ''>'' \<in> set s
      then Inr (strip (fst (split1 CHR ''>'' s)), Gt, strip (snd (split1 CHR ''>'' s)))
      else if CHR ''<'' \<in> set s
      then Inr (strip (fst (split1 CHR ''<'' s)), Lt, strip (snd (split1 CHR ''<'' s)))
      else if CHR ''='' \<in> set s
      then Inr (strip (fst (split1 CHR ''='' s)), Eq, strip (snd (split1 CHR ''='' s)))
      else Inl InvalidCondition)"
    by (simp add: parse_condition_def OPERATORS_def)
  have csv: "CSVProcessor_parse_condition s =
     (if count_list s CHR ''>'' = 1
      then Inr (strip (fst (split1 CHR ''>'' s)), Gt, coerce (strip (snd (split1 CHR ''>'' s))))
      else if count_list s CHR ''<'' = 1
      then Inr (strip (fst (split1 CHR ''<'' s)), Lt, coerce (strip (snd (split1 CHR ''<'' s))))
      else if count_list s CHR ''='' = 1
      then Inr (strip (fst (split1 CHR ''='' s)), Eq, coerce (strip (snd (split1 CHR ''='' s))))
      else Inl InvalidCondition)"
    unfolding CSVProcessor_parse_condition_def
    by (simp only: CSVProcessor_parse_condition_step CSVProcessor_parse_condition_from.simps(1))
  have main_fail: "(parse_condition s = Inl InvalidCondition) =
     (CHR ''>'' \<notin> set s \<and> CHR ''<'' \<notin> set s \<and> CHR ''='' \<notin> set s)"
    unfolding main by simp
  have csv_fail: "(CSVProcessor_parse_condition s = Inl InvalidCondition) =
     (count_list s CHR ''>'' \<noteq> 1 \<and> count_list s CHR ''<'' \<noteq> 1 \<and> count_list s CHR ''='' \<noteq> 1)"
    unfolding csv by simp
  from main csv main_fail csv_fail show ?thesis by (intro conjI)
qed

text \<open>The claim as stated fails where a part is empty, and where the first operator
  occurs twice: both parsers accept \<^verbatim>\<open>>5\<close> with an empty column, and
  \<^verbatim>\<open>_parse_condition\<close> goes on to \<^verbatim>\<open>=\<close> when \<^verbatim>\<open>>\<close> splits into three
  parts.\<close>

theorem parse_condition_empty_column:
  "parse_condition ''>5'' = Inr ([], Gt, ''5'') \<and>
   CSVProcessor_parse_condition ''>5'' = Inr ([], Gt, Num (Fin 5)) \<and>
   CSVProcessor_parse_condition ''a>b>c=d'' = Inr (''a>b>c'', Eq, Text ''d'')"
proof -
  have d: "float_py ''d'' = None"
    by (simp add: float_defs str_defs)
  show ?thesis
    by (simp add: parse_condition_def OPERATORS_def CSVProcessor_parse_condition_def
          coerce_def float_py_5 d str_defs)
qed

section \<open>\<^verbatim>\<open>CSVProcessor.aggregate\<close> without values\<close>

text \<open>
  Claim C9.  For an aggregation \<^verbatim>\<open>column=function\<close>, when the column holds no float
  in the rows that are aggregated (none is numeric, or the column is absent),
  \<^verbatim>\<open>CSVProcessor.aggregate\<close> returns 0.0 under the lower-cased, trimmed function
  name, whatever that name is; with at least one float, a name other than
  \<^verbatim>\<open>avg\<close>, \<^verbatim>\<open>min\<close>, \<^verbatim>\<open>max\<close> is refused.
\<close>

theorem CSVProcessor_aggregate_unvalidated:
  assumes "split_all CHR ''='' aggregation = [p0, p1]"
  shows "(numeric_values (strip p0) (data_or_self self arg) = [] \<longrightarrow>
            CSVProcessor_aggregate self aggregation arg = Inr (lower (strip p1), Fin 0)) \<and>
         (numeric_values (strip p0) (data_or_self self arg) \<noteq> [] \<and>
          lower (strip p1) \<notin> {''avg'', ''min'', ''max''} \<longrightarrow>
            CSVProcessor_aggregate self aggregation arg
              = Inl (UnknownOperation (lower (strip p1))))"
  using assms by (simp add: CSVProcessor_aggregate_def Let_def)

theorem CSVProcessor_aggregate_unvalidated_witness:
  "CSVProcessor_aggregate \<lparr>filename = ''f'', data = [[(''price'', Num (Fin 1)), (''name'', Text ''a'')]]\<rparr>
      ''name=Bogus'' None = Inr (''bogus'', Fin 0) \<and>
   CSVProcessor_aggregate \<lparr>filename = ''f'', data = [[(''price'', Num (Fin 1)), (''name'', Text ''a'')]]\<rparr>
      ''nocol=bogus'' None = Inr (''bogus'', Fin 0) \<and>
   CSVProcessor_aggregate \<lparr>filename = ''f'', data = [[(''price'', Num (Fin 1)), (''name'', Text ''a'')]]\<rparr>
      ''price=bogus'' None = Inl (UnknownOperation ''bogus'')"
proof -
  let ?self = "\<lparr>filename = ''f'', data = [[(''price'', Num (Fin 1)), (''name'', Text ''a'')]]\<rparr>"
  have s1: "split_all CHR ''='' ''name=Bogus'' = [''name'', ''Bogus'']" by simp
  have s2: "split_all CHR ''='' ''nocol=bogus'' = [''nocol'', ''bogus'']" by simp
  have s3: "split_all CHR ''='' ''price=bogus'' = [''price'', ''bogus'']" by simp
  show ?thesis
    using CSVProcessor_aggregate_unvalidated [OF s1, of ?self None]
      CSVProcessor_aggregate_unvalidated [OF s2, of ?self None]
      CSVProcessor_aggregate_unvalidated [OF s3, of ?self None]
    by (simp add: data_or_self_def str_defs)
qed

section \<open>Filters with \<^verbatim>\<open>>\<close> and \<^verbatim>\<open><\<close>\<close>

lemma filter_err_total:
  "(\<And>x. x \<in> set xs \<Longrightarrow> p x = Inr (q x)) \<Longrightarrow> filter_err p xs = Inr (filter q xs)"
  by (induction xs) simp_all

lemma row_matches_numeric_literal:
  assumes "op \<noteq> Eq"
  shows "row_matches op (Num v) m =
           Inr (case m of Some (Num x) \<Rightarrow> (if op = Gt then flt v x else flt x v) | _ \<Rightarrow> False)"
proof (cases m)
  case None
  then show ?thesis by simp
next
  case (Some c)
  with assms show ?thesis by (cases op; cases c) simp_all
qed

lemma parse_condition_nonempty: "parse_condition cond = Inr t \<Longrightarrow> cond \<noteq> []"
  by (auto simp: parse_condition_def OPERATORS_def)

lemma apply_op_text:
  assumes "op \<noteq> Eq"
  shows "apply_op op (Text s) (Text lit) = Inr (if op = Gt then str_lt lit s else str_lt s lit)"
  using assms by (cases op) simp_all

lemma apply_op_num:
  assumes "op \<noteq> Eq"
  shows "apply_op op (Num x) (Num v) = Inr (if op = Gt then flt v x else flt x v)"
  using assms by (cases op) simp_all

lemma filter_rows_text_literal:
  assumes ne: "op \<noteq> Eq"
    and p: "parse_condition cond = Inr (col, op, lit)"
    and lit: "float_py lit = None"
    and cols: "list_all (\<lambda>r. map_of r col \<noteq> None) rows"
  shows "filter_rows rows (Some cond) =
           Inr (filter (\<lambda>r. case map_of r col of
                               Some s \<Rightarrow> (if op = Gt then str_lt lit s else str_lt s lit)
                             | None \<Rightarrow> False) rows)"
proof -
  have "filter_err (\<lambda>r. case getitem r col of
                          Inl e \<Rightarrow> Inl e
                        | Inr s \<Rightarrow> apply_op op (Text s) (Text lit)) rows =
        Inr (filter (\<lambda>r. case map_of r col of
                            Some s \<Rightarrow> (if op = Gt then str_lt lit s else str_lt s lit)
                          | None \<Rightarrow> False) rows)"
  proof (rule filter_err_total)
    fix r assume "r \<in> set rows"
    with cols obtain s where "map_of r col = Some s"
      by (auto simp: list_all_iff)
    then show "(case getitem r col of Inl e \<Rightarrow> Inl e | Inr s \<Rightarrow> apply_op op (Text s) (Text lit)) =
               Inr (case map_of r col of
                      Some s \<Rightarrow> (if op = Gt then str_lt lit s else str_lt s lit)
                    | None \<Rightarrow> False)"
      by (simp add: getitem_def apply_op_text [OF ne])
  qed
  with p lit parse_condition_nonempty [OF p] show ?thesis
    by (simp add: filter_rows_def)
qed

lemma filter_rows_numeric:
  assumes ne: "op \<noteq> Eq"
    and p: "parse_condition cond = Inr (col, op, lit)"
    and lit: "float_py lit = Some v"
    and cells: "list_all (\<lambda>r. case map_of r col of Some s \<Rightarrow> float_py s \<noteq> None | None \<Rightarrow> False) rows"
  shows "filter_rows rows (Some cond) =
           Inr (filter (\<lambda>r. case map_of r col of
                               Some s \<Rightarrow> (case float_py s of
                                             Some x \<Rightarrow> (if op = Gt then flt v x else flt x v)
                                           | None \<Rightarrow> False)
                             | None \<Rightarrow> False) rows)"
proof -
  have "filter_err (\<lambda>r. case getitem r col of
                          Inl e \<Rightarrow> Inl e
                        | Inr s \<Rightarrow> (case float_py s of
                                      None \<Rightarrow> Inl FloatValueError
                                    | Some x \<Rightarrow> apply_op op (Num x) (Num v))) rows =
        Inr (filter (\<lambda>r. case map_of r col of
                               Some s \<Rightarrow> (case float_py s of
                                             Some x \<Rightarrow> (if op = Gt then flt v x else flt x v)
                                           | None \<Rightarrow> False)
                             | None \<Rightarrow> False) rows)"
  proof (rule filter_err_total)
    fix r assume "r \<in> set rows"
    with cells obtain s x where "map_of r col = Some s" "float_py s = Some x"
      by (auto simp: list_all_iff split: option.splits)
    then show "(case getitem r col of
                  Inl e \<Rightarrow> Inl e
                | Inr s \<Rightarrow> (case float_py s of
                              None \<Rightarrow> Inl FloatValueError
                            | Some x \<Rightarrow> apply_op op (Num x) (Num v))) =
               Inr (case map_of r col of
                      Some s \<Rightarrow> (case float_py s of
                                    Some x \<Rightarrow> (if op = Gt then flt v x else flt x v)
                                  | None \<Rightarrow> False)
                    | None \<Rightarrow> False)"
      by (simp add: getitem_def apply_op_num [OF ne])
  qed
  with p lit parse_condition_nonempty [OF p] show ?thesis
    by (simp add: filter_rows_def)
qed

text \<open>
  Claim C1, as amended.  For \<^verbatim>\<open>>\<close> and \<^verbatim>\<open><\<close>:
  \<^item> \<^verbatim>\<open>CSVProcessor.filter_data\<close> with a literal that is a number never raises and
    keeps exactly the rows whose cell in the column is a number that satisfies the
    comparison; a row whose cell is text or absent is left out;
  \<^item> \<^verbatim>\<open>filter_rows\<close> of \<^verbatim>\<open>main.py\<close>, on rows that all have the column, does not
    raise when the literal is not a number: it compares the text of each cell with the
    text of the literal, so a row with a text cell is kept when its text satisfies the
    comparison;
  \<^item> \<^verbatim>\<open>filter_rows\<close> with a literal that is a number, on rows whose cells in the
    column all are numbers, keeps exactly the rows that satisfy the numeric comparison.
\<close>

theorem filter_gt_lt:
  assumes "op \<noteq> Eq"
  shows
    "(CSVProcessor_parse_condition cond = Inr (col, op, Num v) \<longrightarrow>
        CSVProcessor_filter_data self cond =
          Inr (filter (\<lambda>r. case map_of r col of
                              Some (Num x) \<Rightarrow> (if op = Gt then flt v x else flt x v)
                            | _ \<Rightarrow> False) (data self))) \<and>
     (parse_condition cond = Inr (col, op, lit) \<and> float_py lit = None \<and>
      list_all (\<lambda>r. map_of r col \<noteq> None) rows \<longrightarrow>
        filter_rows rows (Some cond) =
          Inr (filter (\<lambda>r. case map_of r col of
                              Some s \<Rightarrow> (if op = Gt then str_lt lit s else str_lt s lit)
                            | None \<Rightarrow> False) rows)) \<and>
     (parse_condition cond = Inr (col, op, lit) \<and> float_py lit = Some v \<and>
      list_all (\<lambda>r. case map_of r col of Some s \<Rightarrow> float_py s \<noteq> None | None \<Rightarrow> False) rows \<longrightarrow>
        filter_rows rows (Some cond) =
          Inr (filter (\<lambda>r. case map_of r col of
                              Some s \<Rightarrow> (case float_py s of
                                            Some x \<Rightarrow> (if op = Gt then flt v x else flt x v)
                                          | None \<Rightarrow> False)
                            | None \<Rightarrow> False) rows))"
proof (intro conjI impI)
  assume "CSVProcessor_parse_condition cond = Inr (col, op, Num v)"
  then show "CSVProcessor_filter_data self cond =
          Inr (filter (\<lambda>r. case map_of r col of
                              Some (Num x) \<Rightarrow> (if op = Gt then flt v x else flt x v)
                            | _ \<Rightarrow> False) (data self))"
    by (simp add: CSVProcessor_filter_data_def filter_err_total
          row_matches_numeric_literal [OF assms])
next
  assume "parse_condition cond = Inr (col, op, lit) \<and> float_py lit = None \<and>
          list_all (\<lambda>r. map_of r col \<noteq> None) rows"
  then show "filter_rows rows (Some cond) =
          Inr (filter (\<lambda>r. case map_of r col of
                              Some s \<Rightarrow> (if op = Gt then str_lt lit s else str_lt s lit)
                            | None \<Rightarrow> False) rows)"
    using filter_rows_text_literal [OF assms] by blast
next
  assume "parse_condition cond = Inr (col, op, lit) \<and> float_py lit = Some v \<and>
          list_all (\<lambda>r. case map_of r col of Some s \<Rightarrow> float_py s \<noteq> None | None \<Rightarrow> False) rows"
  then show "filter_rows rows (Some cond) =
          Inr (filter (\<lambda>r. case map_of r col of
                              Some s \<Rightarrow> (case float_py s of
                                            Some x \<Rightarrow> (if op = Gt then flt v x else flt x v)
                                          | None \<Rightarrow> False)
                            | None \<Rightarrow> False) rows)"
    using filter_rows_numeric [OF assms] by blast
qed

theorem filter_gt_lt_witness:
  "CSVProcessor_filter_data
      \<lparr>filename = ''f'', data = [[(''p'', Num (Fin 2))], [(''p'', Text ''abc'')], [(''q'', Num (Fin 2))]]\<rparr>
      ''p>1'' = Inr [[(''p'', Num (Fin 2))]] \<and>
   filter_rows [[(''p'', ''b'')], [(''p'', ''a'')]] (Some ''p>a'') = Inr [[(''p'', ''b'')]] \<and>
   filter_rows [[(''p'', ''2'')], [(''p'', ''1'')]] (Some ''p>1'') = Inr [[(''p'', ''2'')]]"
proof -
  have ne: "Gt \<noteq> Eq" by simp
  have c1: "CSVProcessor_parse_condition ''p>1'' = Inr (''p'', Gt, Num (Fin 1))"
    by (simp add: CSVProcessor_parse_condition_def coerce_def float_py_1 str_defs)
  have m1: "parse_condition ''p>a'' = Inr (''p'', Gt, ''a'')"
    by (simp add: parse_condition_def OPERATORS_def str_defs)
  have m2: "parse_condition ''p>1'' = Inr (''p'', Gt, ''1'')"
    by (simp add: parse_condition_def OPERATORS_def str_defs)
  show ?thesis
    using filter_gt_lt [OF ne, of "''p>1''" "''p''" "Fin 1"
        "\<lparr>filename = ''f'', data = [[(''p'', Num (Fin 2))], [(''p'', Text ''abc'')], [(''q'', Num (Fin 2))]]\<rparr>"]
      filter_gt_lt [OF ne, of "''p>a''" "''p''" _ _ "''a''" "[[(''p'', ''b'')], [(''p'', ''a'')]]"]
      filter_gt_lt [OF ne, of "''p>1''" "''p''" "Fin 1" _ "''1''" "[[(''p'', ''2'')], [(''p'', ''1'')]]"]
    by (simp add: c1 m1 m2 float_py_a float_py_1 float_py_2)
qed

text \<open>The claim as stated fails in \<^verbatim>\<open>main.py\<close>: with the literal \<^verbatim>\<open>a\<close>, which is
  not a number, the row whose cell is the text \<^verbatim>\<open>b\<close> is kept, not excluded.\<close>

theorem filter_rows_keeps_text_row:
  "float_py ''a'' = None \<and> float_py ''b'' = None \<and>
   filter_rows [[(''name'', ''b'')]] (Some ''name>a'') = Inr [[(''name'', ''b'')]]"
proof -
  have "parse_condition ''name>a'' = Inr (''name'', Gt, ''a'')"
    by (simp add: parse_condition_def OPERATORS_def str_defs)
  then show ?thesis
    by (simp add: filter_rows_def getitem_def float_py_a float_py_b)
qed

text \<open>Outside the amended statement, both variants raise \<^verbatim>\<open>TypeError\<close> where a
  float meets text under \<^verbatim>\<open>>\<close>: in \<^verbatim>\<open>main.py\<close> when the literal is a number and
  some cell is not, in \<^verbatim>\<open>CSVProcessor\<close> when the literal is text and some cell is a
  number.\<close>

lemma filter_type_errors:
  "filter_rows [[(''p'', ''2'')], [(''p'', ''abc'')]] (Some ''p>1'') = Inl TypeError \<and>
   CSVProcessor_filter_data \<lparr>filename = ''f'', data = [[(''p'', Num (Fin 2))]]\<rparr> ''p>abc''
     = Inl TypeError"
proof -
  have m: "parse_condition ''p>1'' = Inr (''p'', Gt, ''1'')"
    by (simp add: parse_condition_def OPERATORS_def str_defs)
  have c: "CSVProcessor_parse_condition ''p>abc'' = Inr (''p'', Gt, Text ''abc'')"
    by (simp add: CSVProcessor_parse_condition_def coerce_def float_py_abc str_defs)
  show ?thesis
    by (simp add: filter_rows_def CSVProcessor_filter_data_def m c getitem_def
          float_py_1 float_py_2 float_py_abc)
qed

section \<open>What the aggregators collect\<close>

lemma numeric_values_map_filter:
  "numeric_values c rs =
     List.map_filter (\<lambda>r. case map_of r c of Some (Num x) \<Rightarrow> Some x | _ \<Rightarrow> None) rs"
  by (induction rs) (auto simp: map_filter_simps split: option.splits cell.splits)

lemma map_of_convert_numeric_values:
  "map_of (convert_numeric_values r) c = map_option coerce (map_of r c)"
  by (simp add: convert_numeric_values_def map_of_map)

lemma numeric_values_converted:
  "numeric_values c (map convert_numeric_values reader) =
     List.map_filter (\<lambda>r. case map_of r c of Some s \<Rightarrow> float_py s | None \<Rightarrow> None) reader"
  by (induction reader)
    (auto simp: map_filter_simps map_of_convert_numeric_values coerce_def split: option.splits)

lemma data_or_self_given:
  "arg \<noteq> Some [] \<Longrightarrow> data_or_self self arg = (case arg of None \<Rightarrow> data self | Some d \<Rightarrow> d)"
  by (simp add: data_or_self_def split: option.splits)

lemma map_err_total:
  "(\<And>x. x \<in> set xs \<Longrightarrow> f x = Inr (g x)) \<Longrightarrow> map_err f xs = Inr (map g xs)"
  by (induction xs) simp_all

lemma map_err_raises:
  assumes "\<And>x. x \<in> set xs \<Longrightarrow> f x = Inl e \<or> (\<exists>y. f x = Inr y)"
    and "\<exists>x \<in> set xs. f x = Inl e"
  shows "map_err f xs = Inl e"
  using assms
proof (induction xs)
  case Nil
  then show ?case by simp
next
  case (Cons x xs)
  show ?case
  proof (cases "f x")
    case (Inl e')
    with Cons.prems(1) [of x] show ?thesis by simp
  next
    case (Inr y)
    with Cons.prems(2) have "\<exists>x \<in> set xs. f x = Inl e" by auto
    with Cons.IH Cons.prems(1) have "map_err f xs = Inl e" by simp
    with Inr show ?thesis by simp
  qed
qed

lemma split_all_two_split1:
  assumes "split_all c s = [a, b]"
  shows "c \<in> set s \<and> split1 c s = (a, b)"
proof -
  from assms have "length (split_all c s) = 2" by simp
  then have once: "count_list s c = 1" by (simp add: length_split_all)
  then have "c \<in> set s" by (metis count_list_0_iff zero_neq_one)
  moreover from split_all_once [OF once] assms have "split1 c s = (a, b)"
    by (simp add: prod_eq_iff)
  ultimately show ?thesis by simp
qed

lemma map_filter_all:
  "(\<And>x. x \<in> set xs \<Longrightarrow> f x = Some (g x)) \<Longrightarrow> List.map_filter f xs = map g xs"
  by (induction xs) (simp_all add: map_filter_simps)

lemma aggregate_not_numeric:
  assumes sp: "split_all CHR ''='' instruction = [p0, p1]"
    and fn: "lower (strip p1) \<in> {''avg'', ''min'', ''max''}"
    and cols: "list_all (\<lambda>r. map_of r (strip p0) \<noteq> None) rows"
    and bad: "list_ex (\<lambda>r. case map_of r (strip p0) of Some s \<Rightarrow> float_py s = None | None \<Rightarrow> False) rows"
  shows "aggregate rows instruction = Inl (ColumnNotNumeric p0)"
proof -
  let ?f = "\<lambda>r. case getitem r (strip p0) of
                   Inl e \<Rightarrow> Inl e
                 | Inr s \<Rightarrow> (case float_py s of None \<Rightarrow> Inl FloatValueError | Some x \<Rightarrow> Inr x)"
  have "map_err ?f rows = Inl FloatValueError"
  proof (rule map_err_raises)
    fix r assume "r \<in> set rows"
    with cols obtain s where "map_of r (strip p0) = Some s"
      by (auto simp: list_all_iff)
    then show "?f r = Inl FloatValueError \<or> (\<exists>y. ?f r = Inr y)"
      by (cases "float_py s") (simp_all add: getitem_def)
  next
    from bad obtain r where "r \<in> set rows"
      and "case map_of r (strip p0) of Some s \<Rightarrow> float_py s = None | None \<Rightarrow> False"
      by (auto simp: list_ex_iff)
    then have "?f r = Inl FloatValueError"
      by (auto simp: getitem_def split: option.splits)
    with \<open>r \<in> set rows\<close> show "\<exists>r \<in> set rows. ?f r = Inl FloatValueError" by blast
  qed
  moreover from fn have "AGGREGATIONS (lower (strip p1)) \<noteq> None"
    by (auto simp: AGGREGATIONS_def)
  ultimately show ?thesis
    using split_all_two_split1 [OF sp] by (auto simp: aggregate_def Let_def)
qed

lemma aggregate_numeric:
  assumes sp: "split_all CHR ''='' instruction = [p0, p1]"
    and cells: "list_all (\<lambda>r. case map_of r (strip p0) of Some s \<Rightarrow> float_py s \<noteq> None | None \<Rightarrow> False) rows"
    and f: "AGGREGATIONS (lower (strip p1)) = Some f"
  shows "aggregate rows instruction =
           (case f (List.map_filter (\<lambda>r. case map_of r (strip p0) of
                                            Some s \<Rightarrow> float_py s | None \<Rightarrow> None) rows) of
              Inl e \<Rightarrow> Inl e
            | Inr res \<Rightarrow> Inr (lower (strip p1), res))"
    and "length (List.map_filter (\<lambda>r. case map_of r (strip p0) of
                                            Some s \<Rightarrow> float_py s | None \<Rightarrow> None) rows) = length rows"
proof -
  let ?c = "\<lambda>r. case map_of r (strip p0) of Some s \<Rightarrow> float_py s | None \<Rightarrow> None"
  let ?f = "\<lambda>r. case getitem r (strip p0) of
                   Inl e \<Rightarrow> Inl e
                 | Inr s \<Rightarrow> (case float_py s of None \<Rightarrow> Inl FloatValueError | Some x \<Rightarrow> Inr x)"
  have each: "?f r = Inr (the (?c r)) \<and> ?c r = Some (the (?c r))" if "r \<in> set rows" for r
    using that cells by (auto simp: list_all_iff getitem_def split: option.splits)
  then have "map_err ?f rows = Inr (map (\<lambda>r. the (?c r)) rows)"
    by (intro map_err_total) simp
  moreover from each have mf: "List.map_filter ?c rows = map (\<lambda>r. the (?c r)) rows"
    by (intro map_filter_all) simp
  ultimately show "aggregate rows instruction =
           (case f (List.map_filter ?c rows) of
              Inl e \<Rightarrow> Inl e
            | Inr res \<Rightarrow> Inr (lower (strip p1), res))"
    using split_all_two_split1 [OF sp] f by (simp add: aggregate_def Let_def)
  from mf show "length (List.map_filter ?c rows) = length rows" by simp
qed

text \<open>
  Claim C2, as amended.  For a function among \<^verbatim>\<open>avg\<close>, \<^verbatim>\<open>min\<close>, \<^verbatim>\<open>max\<close>:
  \<^item> \<^verbatim>\<open>CSVProcessor.aggregate\<close>, called with no dataset (it then aggregates the rows
    of the file) or with a non-empty one, collects exactly the cells of the column that
    are present and are numbers, skipping every other row without raising; it applies
    the function to the collected values when there is one, and returns 0.0 when there
    is none.  In the rows read from a file the numbers are exactly the cells whose text
    \<^verbatim>\<open>float\<close> accepts;
  \<^item> \<^verbatim>\<open>aggregate\<close> of \<^verbatim>\<open>main.py\<close> skips nothing: on rows that all have the
    column, it raises the \<^verbatim>\<open>ValueError\<close> for a non-numeric column as soon as one
    cell is not a number, and applies the function to all cells when all are numbers.
\<close>

theorem aggregate_collects:
  assumes "split_all CHR ''='' aggregation = [p0, p1]"
    and "lower (strip p1) \<in> {''avg'', ''min'', ''max''}"
  shows
    "(arg \<noteq> Some [] \<longrightarrow>
        CSVProcessor_aggregate self aggregation arg =
          (if List.map_filter (\<lambda>r. case map_of r (strip p0) of Some (Num x) \<Rightarrow> Some x | _ \<Rightarrow> None)
                (case arg of None \<Rightarrow> data self | Some d \<Rightarrow> d) = []
           then Inr (lower (strip p1), Fin 0)
           else
             (case AGGREGATIONS (lower (strip p1)) of
                Some f \<Rightarrow>
                  (case f (List.map_filter
                             (\<lambda>r. case map_of r (strip p0) of Some (Num x) \<Rightarrow> Some x | _ \<Rightarrow> None)
                             (case arg of None \<Rightarrow> data self | Some d \<Rightarrow> d)) of
                     Inr (Some res) \<Rightarrow> Inr (lower (strip p1), res)
                   | Inr None \<Rightarrow> Inl EmptySequence
                   | Inl e \<Rightarrow> Inl e)
              | None \<Rightarrow> Inl (UnknownOperation (lower (strip p1)))))) \<and>
     List.map_filter (\<lambda>r. case map_of r (strip p0) of Some (Num x) \<Rightarrow> Some x | _ \<Rightarrow> None)
         (data (CSVProcessor_init fname reader)) =
       List.map_filter (\<lambda>r. case map_of r (strip p0) of Some s \<Rightarrow> float_py s | None \<Rightarrow> None) reader \<and>
     (list_all (\<lambda>r. map_of r (strip p0) \<noteq> None) rows \<and>
      list_ex (\<lambda>r. case map_of r (strip p0) of Some s \<Rightarrow> float_py s = None | None \<Rightarrow> False) rows \<longrightarrow>
        aggregate rows aggregation = Inl (ColumnNotNumeric p0)) \<and>
     (list_all (\<lambda>r. case map_of r (strip p0) of Some s \<Rightarrow> float_py s \<noteq> None | None \<Rightarrow> False) rows \<longrightarrow>
        length (List.map_filter (\<lambda>r. case map_of r (strip p0) of
                                        Some s \<Rightarrow> float_py s | None \<Rightarrow> None) rows) = length rows \<and>
        aggregate rows aggregation =
          (case AGGREGATIONS (lower (strip p1)) of
             Some f \<Rightarrow>
               (case f (List.map_filter (\<lambda>r. case map_of r (strip p0) of
                                                Some s \<Rightarrow> float_py s | None \<Rightarrow> None) rows) of
                  Inl e \<Rightarrow> Inl e
                | Inr res \<Rightarrow> Inr (lower (strip p1), res))
           | None \<Rightarrow> Inl (UnsupportedFunction (lower (strip p1)))))"
proof (intro conjI impI)
  assume arg: "arg \<noteq> Some []"
  let ?vs = "List.map_filter (\<lambda>r. case map_of r (strip p0) of Some (Num x) \<Rightarrow> Some x | _ \<Rightarrow> None)
                (case arg of None \<Rightarrow> data self | Some d \<Rightarrow> d)"
  have vs: "numeric_values (strip p0) (data_or_self self arg) = ?vs"
    by (simp add: numeric_values_map_filter data_or_self_given [OF arg])
  show "CSVProcessor_aggregate self aggregation arg =
          (if ?vs = [] then Inr (lower (strip p1), Fin 0)
           else
             (case AGGREGATIONS (lower (strip p1)) of
                Some f \<Rightarrow>
                  (case f ?vs of
                     Inr (Some res) \<Rightarrow> Inr (lower (strip p1), res)
                   | Inr None \<Rightarrow> Inl EmptySequence
                   | Inl e \<Rightarrow> Inl e)
              | None \<Rightarrow> Inl (UnknownOperation (lower (strip p1)))))"
    using assms(1)
    by (auto simp: CSVProcessor_aggregate_def Let_def vs AGGREGATIONS_def min_py_def max_py_def
             split: list.splits)
next
  show "List.map_filter (\<lambda>r. case map_of r (strip p0) of Some (Num x) \<Rightarrow> Some x | _ \<Rightarrow> None)
         (data (CSVProcessor_init fname reader)) =
       List.map_filter (\<lambda>r. case map_of r (strip p0) of Some s \<Rightarrow> float_py s | None \<Rightarrow> None) reader"
    using numeric_values_converted [of "strip p0" reader]
    by (simp add: CSVProcessor_init_def numeric_values_map_filter)
next
  assume "list_all (\<lambda>r. map_of r (strip p0) \<noteq> None) rows \<and>
      list_ex (\<lambda>r. case map_of r (strip p0) of Some s \<Rightarrow> float_py s = None | None \<Rightarrow> False) rows"
  then show "aggregate rows aggregation = Inl (ColumnNotNumeric p0)"
    using aggregate_not_numeric [OF assms] by blast
next
  assume cells: "list_all (\<lambda>r. case map_of r (strip p0) of Some s \<Rightarrow> float_py s \<noteq> None | None \<Rightarrow> False) rows"
  from assms(2) obtain f where f: "AGGREGATIONS (lower (strip p1)) = Some f"
    by (auto simp: AGGREGATIONS_def)
  from aggregate_numeric(2) [OF assms(1) cells f]
  show "length (List.map_filter (\<lambda>r. case map_of r (strip p0) of
                                        Some s \<Rightarrow> float_py s | None \<Rightarrow> None) rows) = length rows" .
  from aggregate_numeric(1) [OF assms(1) cells f] f
  show "aggregate rows aggregation =
          (case AGGREGATIONS (lower (strip p1)) of
             Some f \<Rightarrow>
               (case f (List.map_filter (\<lambda>r. case map_of r (strip p0) of
                                                Some s \<Rightarrow> float_py s | None \<Rightarrow> None) rows) of
                  Inl e \<Rightarrow> Inl e
                | Inr res \<Rightarrow> Inr (lower (strip p1), res))
           | None \<Rightarrow> Inl (UnsupportedFunction (lower (strip p1))))"
    by simp
qed

theorem aggregate_collects_witness:
  "CSVProcessor_aggregate
      \<lparr>filename = ''f'', data = [[(''p'', Num (Fin 1))], [(''p'', Text ''abc'')], [(''q'', Num (Fin 2))]]\<rparr>
      ''p=max'' None = Inr (''max'', Fin 1) \<and>
   List.map_filter (\<lambda>r. case map_of r ''p'' of Some (Num x) \<Rightarrow> Some x | _ \<Rightarrow> None)
      (data (CSVProcessor_init ''f'' [[(''p'', ''1'')], [(''p'', ''abc'')], [(''q'', ''2'')]])) = [Fin 1] \<and>
   aggregate [[(''p'', ''1'')], [(''p'', ''abc'')]] ''p=max'' = Inl (ColumnNotNumeric ''p'') \<and>
   aggregate [[(''p'', ''1'')], [(''p'', ''2'')]] ''p=max'' = Inr (''max'', Some (Fin 2))"
proof -
  have sp: "split_all CHR ''='' ''p=max'' = [''p'', ''max'']" by simp
  have fn: "lower (strip ''max'') \<in> {''avg'', ''min'', ''max''}" by (simp add: str_defs)
  have st: "strip ''p'' = ''p''" "lower (strip ''max'') = ''max''" by (simp_all add: str_defs)
  have mx: "AGGREGATIONS ''max'' = Some (\<lambda>vs. case max_py vs of Inl e \<Rightarrow> Inl e | Inr m \<Rightarrow> Inr (Some m))"
    by (simp add: AGGREGATIONS_def)
  note w = aggregate_collects [OF sp fn, unfolded st]
  show ?thesis
    using w [where arg = None
        and self = "\<lparr>filename = ''f'', data = [[(''p'', Num (Fin 1))], [(''p'', Text ''abc'')], [(''q'', Num (Fin 2))]]\<rparr>"
        and fname = "''f''" and reader = "[[(''p'', ''1'')], [(''p'', ''abc'')], [(''q'', ''2'')]]"
        and rows = "[[(''p'', ''1'')], [(''p'', ''abc'')]]"]
      w [where arg = None and self = "\<lparr>filename = ''f'', data = []\<rparr>" and fname = "''f''" and reader = "[]"
        and rows = "[[(''p'', ''1'')], [(''p'', ''2'')]]"]
    by (simp add: mx max_py_def map_filter_simps float_py_1 float_py_2 float_py_abc)
qed

text \<open>The claim as stated fails in \<^verbatim>\<open>main.py\<close>: the row whose price is not a number
  is not skipped, the aggregation raises.\<close>

theorem aggregate_raises_on_text_cell:
  "float_py ''abc'' = None \<and>
   aggregate [[(''price'', ''1'')], [(''price'', ''abc'')]] ''price=avg''
     = Inl (ColumnNotNumeric ''price'')"
  by (simp add: aggregate_def AGGREGATIONS_def getitem_def float_py_1 float_py_abc str_defs)

section \<open>Minimum, average and maximum\<close>

lemma flt_trans: "flt a b \<Longrightarrow> flt b c \<Longrightarrow> flt a c"
  by (cases a; cases b; cases c) simp_all


















section \<open>Where \<^verbatim>\<open>CSVProcessor.sort_data\<close> puts the rows without a value\<close>

lemma sort_key_shape:
  assumes "b \<longrightarrow> column_is_numeric col rs"
    and "map_err (sort_key col b) rs = Inr ks"
  shows "ks = map (\<lambda>r. (map_of r col = None, map_of r col)) rs"
  using assms
proof (induction rs arbitrary: ks)
  case Nil
  then show ?case by simp
next
  case (Cons r rs)
  from Cons.prems(2) obtain k ks' where k: "sort_key col b r = Inr k"
    and ks': "map_err (sort_key col b) rs = Inr ks'" and ks: "ks = k # ks'"
    by (auto split: sum.splits)
  from Cons.prems(1) have tl: "b \<longrightarrow> column_is_numeric col rs"
    and hd: "b \<longrightarrow> (case map_of r col of None \<Rightarrow> True | Some v \<Rightarrow> is_num v)"
    by (simp_all add: column_is_numeric_def)
  from k hd have "k = (map_of r col = None, map_of r col)"
    by (auto simp: sort_key_def is_num_def split: option.splits cell.splits if_splits)
  with Cons.IH [OF tl ks'] ks show ?case by simp
qed

lemma set_insort_key: "set (insort_key lt x ys) = insert x (set ys)"
  using mset_insort_key [of lt x ys] by (metis set_mset_add_mset_insert set_mset_mset)

lemma set_stable_sort: "set (stable_sort lt xs) = set xs"
  using mset_stable_sort [of lt xs] by (metis set_mset_mset)

lemma insort_missing:
  assumes "fst (fst x)" and "snd (fst x) = None"
    and "\<forall>y \<in> set V. \<not> fst (fst y)"
    and "\<forall>y \<in> set M. fst (fst y) \<and> snd (fst y) = None"
  shows "insort_key key_lt x (V @ M) = V @ x # M"
  using assms(3)
proof (induction V)
  case Nil
  show ?case
  proof (cases M)
    case Nil
    then show ?thesis by simp
  next
    case (Cons m M')
    with assms(4) have "fst (fst m)" "snd (fst m) = None" by simp_all
    with assms(1,2) have "\<not> key_lt (fst m) (fst x)"
      by (cases "fst m"; cases "fst x") simp
    with Cons show ?thesis by simp
  qed
next
  case (Cons v V)
  then have "\<not> fst (fst v)" by simp
  with assms(1) have "key_lt (fst v) (fst x)"
    by (cases "fst v"; cases "fst x") simp
  with Cons show ?case by simp
qed

lemma insort_valued:
  assumes "\<not> fst (fst x)" and "\<forall>y \<in> set M. fst (fst y)"
  shows "insort_key key_lt x (V @ M) = insort_key key_lt x V @ M"
proof (induction V)
  case Nil
  show ?case
  proof (cases M)
    case Nil
    then show ?thesis by simp
  next
    case (Cons m M')
    with assms(2) have "fst (fst m)" by simp
    with assms(1) have "\<not> key_lt (fst m) (fst x)"
      by (cases "fst m"; cases "fst x") simp
    with Cons show ?thesis by simp
  qed
next
  case (Cons v V)
  then show ?case by simp
qed

lemma stable_sort_groups:
  assumes "\<forall>kx \<in> set kxs. fst (fst kx) \<longrightarrow> snd (fst kx) = None"
  shows "\<exists>V. stable_sort key_lt kxs = V @ filter (\<lambda>kx. fst (fst kx)) kxs \<and>
              (\<forall>y \<in> set V. \<not> fst (fst y))"
  using assms
proof (induction kxs)
  case Nil
  then show ?case by simp
next
  case (Cons x kxs)
  let ?M = "filter (\<lambda>kx. fst (fst kx)) kxs"
  from Cons obtain V where V: "stable_sort key_lt kxs = V @ ?M" "\<forall>y \<in> set V. \<not> fst (fst y)"
    by auto
  from Cons.prems have M: "\<forall>y \<in> set ?M. fst (fst y) \<and> snd (fst y) = None" by simp
  show ?case
  proof (cases "fst (fst x)")
    case True
    with Cons.prems have "snd (fst x) = None" by simp
    from insort_missing [OF True this V(2) M] V show ?thesis
      using True by auto
  next
    case False
    from M have "\<forall>y \<in> set ?M. fst (fst y)" by simp
    from insort_valued [OF False this, of V] V(1)
    have "stable_sort key_lt (x # kxs) = insort_key key_lt x V @ ?M" by simp
    moreover from V(2) False have "\<forall>y \<in> set (insort_key key_lt x V). \<not> fst (fst y)"
      by (simp add: set_insort_key)
    ultimately show ?thesis using False by auto
  qed
qed

lemma stable_sort_missing_last:
  assumes "\<forall>kx \<in> set kxs. fst (fst kx) \<longrightarrow> snd (fst kx) = None"
  shows "stable_sort key_lt kxs =
           filter (\<lambda>kx. \<not> fst (fst kx)) (stable_sort key_lt kxs) @ filter (\<lambda>kx. fst (fst kx)) kxs"
proof -
  from stable_sort_groups [OF assms] obtain V
    where V: "stable_sort key_lt kxs = V @ filter (\<lambda>kx. fst (fst kx)) kxs"
      "\<forall>y \<in> set V. \<not> fst (fst y)"
    by blast
  from V(2) have "filter (\<lambda>kx. \<not> fst (fst kx)) V = V" by (simp add: filter_id_conv)
  then have "filter (\<lambda>kx. \<not> fst (fst kx)) (V @ filter (\<lambda>kx. fst (fst kx)) kxs) = V"
    by simp
  with V(1) show ?thesis by simp
qed

lemma map_snd_filter_tagged:
  assumes "\<forall>kx \<in> set L. fst kx = k (snd kx)"
  shows "map snd (filter (\<lambda>kx. Q (fst kx)) L) = filter (\<lambda>r. Q (k r)) (map snd L)"
  using assms by (induction L) auto

lemma zip_map_tagged: "zip (map k rs) rs = map (\<lambda>r. (k r, r)) rs"
  by (induction rs) simp_all

lemma sorted_py_groups:
  fixes col :: string and rs :: "crow list"
  defines "k \<equiv> \<lambda>r. (map_of r col = None, map_of r col)"
  shows "sorted_py key_lt False (zip (map k rs) rs) =
           filter (\<lambda>r. map_of r col \<noteq> None) (sorted_py key_lt False (zip (map k rs) rs)) @
           filter (\<lambda>r. map_of r col = None) rs"
    and "sorted_py key_lt True (zip (map k rs) rs) =
           filter (\<lambda>r. map_of r col = None) rs @
           filter (\<lambda>r. map_of r col \<noteq> None) (sorted_py key_lt True (zip (map k rs) rs))"
proof -
  let ?tag = "map (\<lambda>r. (k r, r)) rs"
  let ?miss = "\<lambda>kx :: sort_key \<times> crow. fst (fst kx)"
  let ?val = "\<lambda>kx :: sort_key \<times> crow. \<not> fst (fst kx)"
  have tagged: "\<forall>kx \<in> set L. fst kx = k (snd kx)" if "set L \<subseteq> set ?tag" for L
    using that by auto
  have wf: "\<forall>kx \<in> set L. fst (fst kx) \<longrightarrow> snd (fst kx) = None" if "set L \<subseteq> set ?tag" for L
    using that by (auto simp: k_def)
  have miss: "map snd (filter ?miss L) = filter (\<lambda>r. map_of r col = None) (map snd L)"
    if "set L \<subseteq> set ?tag" for L
    using map_snd_filter_tagged [OF tagged [OF that], of fst] by (simp add: k_def)
  have val: "map snd (filter ?val L) = filter (\<lambda>r. map_of r col \<noteq> None) (map snd L)"
    if "set L \<subseteq> set ?tag" for L
    using map_snd_filter_tagged [OF tagged [OF that], of "\<lambda>key. \<not> fst key"] by (simp add: k_def)
  have snd_tag: "map snd ?tag = rs" by (simp add: comp_def)
  let ?S = "stable_sort key_lt ?tag"
  have S: "set ?S \<subseteq> set ?tag" by (simp add: set_stable_sort)
  have "?S = filter ?val ?S @ filter ?miss ?tag"
    by (rule stable_sort_missing_last) (rule wf, simp)
  then have "map snd ?S = map snd (filter ?val ?S) @ map snd (filter ?miss ?tag)"
    by (metis map_append)
  then have "map snd ?S = filter (\<lambda>r. map_of r col \<noteq> None) (map snd ?S) @
                          filter (\<lambda>r. map_of r col = None) rs"
    using val [OF S] miss [of ?tag] snd_tag by simp
  then show "sorted_py key_lt False (zip (map k rs) rs) =
           filter (\<lambda>r. map_of r col \<noteq> None) (sorted_py key_lt False (zip (map k rs) rs)) @
           filter (\<lambda>r. map_of r col = None) rs"
    by (simp add: sorted_py_def zip_map_tagged)
  let ?R = "stable_sort key_lt (rev ?tag)"
  have R: "set ?R \<subseteq> set ?tag" "set (rev ?R) \<subseteq> set ?tag" by (simp_all add: set_stable_sort)
  have "?R = filter ?val ?R @ filter ?miss (rev ?tag)"
    by (rule stable_sort_missing_last) (rule wf, simp)
  then have "rev ?R = rev (filter ?val ?R @ filter ?miss (rev ?tag))"
    by simp
  then have "rev ?R = filter ?miss ?tag @ filter ?val (rev ?R)"
    by (simp add: rev_filter)
  then have "map snd (rev ?R) = map snd (filter ?miss ?tag) @ map snd (filter ?val (rev ?R))"
    by (metis map_append)
  then have "map snd (rev ?R) = filter (\<lambda>r. map_of r col = None) rs @
                                filter (\<lambda>r. map_of r col \<noteq> None) (map snd (rev ?R))"
    using val [OF R(2)] miss [of ?tag] snd_tag by simp
  then show "sorted_py key_lt True (zip (map k rs) rs) =
           filter (\<lambda>r. map_of r col = None) rs @
           filter (\<lambda>r. map_of r col \<noteq> None) (sorted_py key_lt True (zip (map k rs) rs))"
    by (simp add: sorted_py_def zip_map_tagged)
qed

text \<open>
  Claim C6, as amended.  Whenever \<^verbatim>\<open>CSVProcessor.sort_data\<close> returns, the rows
  without a value in the sort column form one group, in their original order: after all
  rows that have a value when the direction is asc, and before all of them when it is
  desc.  Flipping the direction moves this group to the other end.
\<close>

theorem sort_data_missing_group:
  assumes "CSVProcessor_sort_data self order_by arg = Inr res"
    and "split_all CHR ''='' order_by = [p0, p1]"
  shows
    "(lower (strip p1) = ''asc'' \<longrightarrow>
        res = filter (\<lambda>r. map_of r (strip p0) \<noteq> None) res @
              filter (\<lambda>r. map_of r (strip p0) = None) (data_or_self self arg)) \<and>
     (lower (strip p1) = ''desc'' \<longrightarrow>
        res = filter (\<lambda>r. map_of r (strip p0) = None) (data_or_self self arg) @
              filter (\<lambda>r. map_of r (strip p0) \<noteq> None) res)"
proof -
  let ?rs = "data_or_self self arg"
  let ?col = "strip p0"
  let ?k = "\<lambda>r. (map_of r ?col = None, map_of r ?col)"
  from assms obtain ks
    where dir: "lower (strip p1) = ''asc'' \<or> lower (strip p1) = ''desc''"
      and ks: "map_err (sort_key ?col (column_is_numeric ?col ?rs)) ?rs = Inr ks"
      and res: "res = sorted_py key_lt (lower (strip p1) = ''desc'') (zip ks ?rs)"
    by (auto simp: CSVProcessor_sort_data_def Let_def split: sum.splits if_splits)
  from sort_key_shape [OF _ ks] have "ks = map ?k ?rs" by simp
  with res have res': "res = sorted_py key_lt (lower (strip p1) = ''desc'') (zip (map ?k ?rs) ?rs)"
    by simp
  show ?thesis
  proof (intro conjI impI)
    assume "lower (strip p1) = ''asc''"
    with res' have "res = sorted_py key_lt False (zip (map ?k ?rs) ?rs)" by simp
    with sorted_py_groups(1) [of ?col ?rs]
    show "res = filter (\<lambda>r. map_of r ?col \<noteq> None) res @ filter (\<lambda>r. map_of r ?col = None) ?rs"
      by simp
  next
    assume "lower (strip p1) = ''desc''"
    with res' have "res = sorted_py key_lt True (zip (map ?k ?rs) ?rs)" by simp
    with sorted_py_groups(2) [of ?col ?rs]
    show "res = filter (\<lambda>r. map_of r ?col = None) ?rs @ filter (\<lambda>r. map_of r ?col \<noteq> None) res"
      by simp
  qed
qed

theorem sort_data_missing_group_witness:
  "CSVProcessor_sort_data \<lparr>filename = ''f'', data = []\<rparr> ''c=asc''
      (Some [[(''c'', Text ''b'')], [(''d'', Text ''x'')], [(''c'', Text ''a'')], []])
     = Inr [[(''c'', Text ''a'')], [(''c'', Text ''b'')], [(''d'', Text ''x'')], []] \<and>
   [[(''c'', Text ''a'')], [(''c'', Text ''b'')], [(''d'', Text ''x'')], []]
     = [[(''c'', Text ''a'')], [(''c'', Text ''b'')]] @ [[(''d'', Text ''x'')], []] \<and>
   CSVProcessor_sort_data \<lparr>filename = ''f'', data = []\<rparr> ''c=desc''
      (Some [[(''c'', Text ''b'')], [(''d'', Text ''x'')], [(''c'', Text ''a'')], []])
     = Inr [[(''d'', Text ''x'')], [], [(''c'', Text ''b'')], [(''c'', Text ''a'')]] \<and>
   [[(''d'', Text ''x'')], [], [(''c'', Text ''b'')], [(''c'', Text ''a'')]]
     = filter (\<lambda>r. map_of r ''c'' = None)
         (data_or_self \<lparr>filename = ''f'', data = []\<rparr>
            (Some [[(''c'', Text ''b'')], [(''d'', Text ''x'')], [(''c'', Text ''a'')], []])) @
       filter (\<lambda>r. map_of r ''c'' \<noteq> None)
         [[(''d'', Text ''x'')], [], [(''c'', Text ''b'')], [(''c'', Text ''a'')]]"
proof -
  let ?self = "\<lparr>filename = ''f'', data = []\<rparr>"
  let ?d = "[[(''c'', Text ''b'')], [(''d'', Text ''x'')], [(''c'', Text ''a'')], []] :: crow list"
  have up: "split_all CHR ''='' ''c=asc'' = [''c'', ''asc'']" by simp
  have down: "split_all CHR ''='' ''c=desc'' = [''c'', ''desc'']" by simp
  have st: "strip ''c'' = ''c''" "lower (strip ''asc'') = ''asc''" "lower (strip ''desc'') = ''desc''"
    by (simp_all add: str_defs)
  have asc: "CSVProcessor_sort_data ?self ''c=asc'' (Some ?d)
               = Inr [[(''c'', Text ''a'')], [(''c'', Text ''b'')], [(''d'', Text ''x'')], []]"
    by (simp add: CSVProcessor_sort_data_def data_or_self_def column_is_numeric_def is_num_def
          sort_key_def mixed_keys_def sorted_py_def str_defs Let_def)
  have desc: "CSVProcessor_sort_data ?self ''c=desc'' (Some ?d)
               = Inr [[(''d'', Text ''x'')], [], [(''c'', Text ''b'')], [(''c'', Text ''a'')]]"
    by (simp add: CSVProcessor_sort_data_def data_or_self_def column_is_numeric_def is_num_def
          sort_key_def mixed_keys_def sorted_py_def str_defs Let_def)
  from sort_data_missing_group [OF asc up, unfolded st]
    sort_data_missing_group [OF desc down, unfolded st] asc desc
  show ?thesis by (simp add: data_or_self_def)
qed

text \<open>The claim as stated fails for the direction desc: the row without the column
  \<^verbatim>\<open>c\<close> comes first, before the row that has a value.\<close>

theorem sort_data_desc_missing_first:
  "map_of [(''d'', Text ''x'')] ''c'' = None \<and>
   CSVProcessor_sort_data \<lparr>filename = ''f'', data = []\<rparr> ''c=desc''
      (Some [[(''c'', Text ''b'')], [(''d'', Text ''x'')]])
     = Inr [[(''d'', Text ''x'')], [(''c'', Text ''b'')]]"
  by (simp add: CSVProcessor_sort_data_def data_or_self_def column_is_numeric_def is_num_def
        sort_key_def mixed_keys_def sorted_py_def str_defs Let_def)

text \<open>The sort returns whenever the direction is valid and the column holds text and
  no number; rows without the column are allowed.  (With no text and a row without the
  column, the column counts as numeric and \<^verbatim>\<open>float(None)\<close> raises.)\<close>

lemma CSVProcessor_sort_data_text_column:
  assumes sp: "split_all CHR ''='' order_by = [p0, p1]"
    and dir: "lower (strip p1) = ''asc'' \<or> lower (strip p1) = ''desc''"
    and no_num: "list_all (\<lambda>r. case map_of r (strip p0) of Some (Num x) \<Rightarrow> False | _ \<Rightarrow> True)
                   (data_or_self self arg)"
    and a_text: "list_ex (\<lambda>r. case map_of r (strip p0) of Some (Text s) \<Rightarrow> True | _ \<Rightarrow> False)
                   (data_or_self self arg)"
  shows "\<exists>res. CSVProcessor_sort_data self order_by arg = Inr res"
proof -
  let ?rs = "data_or_self self arg"
  let ?col = "strip p0"
  let ?k = "\<lambda>r. (map_of r ?col = None, map_of r ?col)"
  from a_text have nn: "\<not> column_is_numeric ?col ?rs"
    by (auto simp: column_is_numeric_def list_ex_iff list_all_iff is_num_def
             split: option.splits cell.splits)
  have "sort_key ?col False r = Inr (?k r)" for r
    by (simp add: sort_key_def split: option.splits cell.splits)
  then have ks: "map_err (sort_key ?col False) ?rs = Inr (map ?k ?rs)"
    by (intro map_err_total) simp
  from no_num have "\<not> list_ex (\<lambda>k. case snd k of Some (Num x) \<Rightarrow> True | _ \<Rightarrow> False) (map ?k ?rs)"
    by (auto simp: list_ex_iff list_all_iff split: option.splits cell.splits)
  then have "\<not> mixed_keys (map ?k ?rs)" by (simp add: mixed_keys_def)
  with sp dir nn ks show ?thesis
    by (auto simp: CSVProcessor_sort_data_def Let_def)
qed

section \<open>One non-numeric cell empties an equality filter in \<^verbatim>\<open>main.py\<close>\<close>

lemma filter_err_raises:
  assumes "\<And>x. x \<in> set xs \<Longrightarrow> p x = Inl e \<or> (\<exists>b. p x = Inr b)"
    and "\<exists>x \<in> set xs. p x = Inl e"
  shows "filter_err p xs = Inl e"
  using assms
proof (induction xs)
  case Nil
  then show ?case by simp
next
  case (Cons x xs)
  show ?case
  proof (cases "p x")
    case (Inl e')
    with Cons.prems(1) [of x] show ?thesis by simp
  next
    case (Inr b)
    with Cons.prems(2) have "\<exists>x \<in> set xs. p x = Inl e" by auto
    with Cons.IH Cons.prems(1) have "filter_err p xs = Inl e" by simp
    with Inr show ?thesis by simp
  qed
qed

text \<open>Every cell is a number: the rows are compared as floats.\<close>

lemma filter_rows_eq_numeric:
  assumes p: "parse_condition cond = Inr (col, Eq, lit)"
    and lit: "float_py lit = Some v"
    and cells: "list_all (\<lambda>r. case map_of r col of Some s \<Rightarrow> float_py s \<noteq> None | None \<Rightarrow> False) rows"
  shows "filter_rows rows (Some cond) =
           Inr (filter (\<lambda>r. case map_of r col of
                               Some s \<Rightarrow> (case float_py s of Some x \<Rightarrow> feq x v | None \<Rightarrow> False)
                             | None \<Rightarrow> False) rows)"
proof -
  have "filter_err (\<lambda>r. case getitem r col of
                          Inl e \<Rightarrow> Inl e
                        | Inr s \<Rightarrow> (case float_py s of
                                      None \<Rightarrow> Inl FloatValueError
                                    | Some x \<Rightarrow> apply_op Eq (Num x) (Num v))) rows =
        Inr (filter (\<lambda>r. case map_of r col of
                            Some s \<Rightarrow> (case float_py s of Some x \<Rightarrow> feq x v | None \<Rightarrow> False)
                          | None \<Rightarrow> False) rows)"
  proof (rule filter_err_total)
    fix r assume "r \<in> set rows"
    with cells obtain s x where "map_of r col = Some s" "float_py s = Some x"
      by (auto simp: list_all_iff split: option.splits)
    then show "(case getitem r col of
                  Inl e \<Rightarrow> Inl e
                | Inr s \<Rightarrow> (case float_py s of
                              None \<Rightarrow> Inl FloatValueError
                            | Some x \<Rightarrow> apply_op Eq (Num x) (Num v))) =
               Inr (case map_of r col of
                      Some s \<Rightarrow> (case float_py s of Some x \<Rightarrow> feq x v | None \<Rightarrow> False)
                    | None \<Rightarrow> False)"
      by (simp add: getitem_def)
  qed
  with p lit parse_condition_nonempty [OF p] show ?thesis
    by (simp add: filter_rows_def)
qed

text \<open>One cell is not a number: its conversion raises \<^verbatim>\<open>ValueError\<close>, and the
  \<^verbatim>\<open>except\<close> block compares the raw text of every cell with \<^verbatim>\<open>val\<close>, which by
  then is the float; a str never equals a float.\<close>

lemma filter_rows_eq_text_cell:
  assumes p: "parse_condition cond = Inr (col, Eq, lit)"
    and lit: "float_py lit = Some v"
    and cols: "list_all (\<lambda>r. map_of r col \<noteq> None) rows"
    and bad: "list_ex (\<lambda>r. case map_of r col of Some s \<Rightarrow> float_py s = None | None \<Rightarrow> False) rows"
  shows "filter_rows rows (Some cond) = Inr []"
proof -
  let ?convert = "\<lambda>r. case getitem r col of
                     Inl e \<Rightarrow> Inl e
                   | Inr s \<Rightarrow> (case float_py s of
                                 None \<Rightarrow> Inl FloatValueError
                               | Some x \<Rightarrow> apply_op Eq (Num x) (Num v))"
  let ?fallback = "\<lambda>r. case getitem r col of
                        Inl e \<Rightarrow> Inl e
                      | Inr s \<Rightarrow> apply_op Eq (Text s) (Num v)"
  have "filter_err ?convert rows = Inl FloatValueError"
  proof (rule filter_err_raises)
    fix r assume "r \<in> set rows"
    with cols obtain s where "map_of r col = Some s"
      by (auto simp: list_all_iff)
    then show "?convert r = Inl FloatValueError \<or> (\<exists>b. ?convert r = Inr b)"
      by (cases "float_py s") (simp_all add: getitem_def)
  next
    from bad obtain r where "r \<in> set rows"
      and "case map_of r col of Some s \<Rightarrow> float_py s = None | None \<Rightarrow> False"
      by (auto simp: list_ex_iff)
    then have "?convert r = Inl FloatValueError"
      by (auto simp: getitem_def split: option.splits)
    with \<open>r \<in> set rows\<close> show "\<exists>r \<in> set rows. ?convert r = Inl FloatValueError" by blast
  qed
  moreover have "filter_err ?fallback rows = Inr (filter (\<lambda>r. False) rows)"
  proof (rule filter_err_total)
    fix r assume "r \<in> set rows"
    with cols obtain s where "map_of r col = Some s"
      by (auto simp: list_all_iff)
    then show "?fallback r = Inr False" by (simp add: getitem_def)
  qed
  ultimately show ?thesis
    using p lit parse_condition_nonempty [OF p] by (simp add: filter_rows_def)
qed

text \<open>
  Claim C10, as amended.  In \<^verbatim>\<open>main.py\<close>, whether a row passes an equality filter
  whose literal is a number is not decided by the row and the condition alone.  On rows
  that all have the column:
  \<^item> when every cell of the column is a number, \<^verbatim>\<open>filter_rows\<close> keeps exactly the rows
    whose number equals the literal;
  \<^item> when one cell of the column is not a number, \<^verbatim>\<open>filter_rows\<close> compares the raw
    text of every cell with the literal, which is already converted to a float, and
    keeps no row at all.
  So a row that is kept in one dataset is dropped from every dataset that also holds a
  row with a non-numeric cell in the column.  The fallback compares text with a float;
  it does not compare strings.
\<close>

theorem filter_rows_eq_depends_on_column:
  assumes "parse_condition cond = Inr (col, Eq, lit)"
    and "float_py lit = Some v"
    and "list_all (\<lambda>r. map_of r col \<noteq> None) rows"
  shows
    "(list_all (\<lambda>r. case map_of r col of Some s \<Rightarrow> float_py s \<noteq> None | None \<Rightarrow> False) rows \<longrightarrow>
        filter_rows rows (Some cond) =
          Inr (filter (\<lambda>r. case map_of r col of
                              Some s \<Rightarrow> (case float_py s of Some x \<Rightarrow> feq x v | None \<Rightarrow> False)
                            | None \<Rightarrow> False) rows)) \<and>
     (list_ex (\<lambda>r. case map_of r col of Some s \<Rightarrow> float_py s = None | None \<Rightarrow> False) rows \<longrightarrow>
        filter_rows rows (Some cond) = Inr [])"
proof (intro conjI impI)
  assume "list_all (\<lambda>r. case map_of r col of Some s \<Rightarrow> float_py s \<noteq> None | None \<Rightarrow> False) rows"
  from filter_rows_eq_numeric [OF assms(1,2) this]
  show "filter_rows rows (Some cond) =
          Inr (filter (\<lambda>r. case map_of r col of
                              Some s \<Rightarrow> (case float_py s of Some x \<Rightarrow> feq x v | None \<Rightarrow> False)
                            | None \<Rightarrow> False) rows)" .
next
  assume "list_ex (\<lambda>r. case map_of r col of Some s \<Rightarrow> float_py s = None | None \<Rightarrow> False) rows"
  from filter_rows_eq_text_cell [OF assms this]
  show "filter_rows rows (Some cond) = Inr []" .
qed

text \<open>The witness: the row with price 999 passes \<^verbatim>\<open>price=999\<close> together with a row
  of price 1, and no longer passes once the row of price \<^verbatim>\<open>abc\<close> is added.\<close>

theorem filter_rows_eq_depends_on_column_witness:
  "[(''price'', ''999'')] \<in> set [[(''price'', ''999'')], [(''price'', ''1'')]] \<and>
   filter_rows [[(''price'', ''999'')], [(''price'', ''1'')]] (Some ''price=999'')
     = Inr [[(''price'', ''999'')]] \<and>
   [(''price'', ''999'')] \<in> set [[(''price'', ''999'')], [(''price'', ''1'')], [(''price'', ''abc'')]] \<and>
   filter_rows [[(''price'', ''999'')], [(''price'', ''1'')], [(''price'', ''abc'')]] (Some ''price=999'')
     = Inr []"
proof -
  have p: "parse_condition ''price=999'' = Inr (''price'', Eq, ''999'')"
    by (simp add: parse_condition_def OPERATORS_def str_defs)
  have c1: "list_all (\<lambda>r. map_of r ''price'' \<noteq> None) [[(''price'', ''999'')], [(''price'', ''1'')]]"
    by simp
  have c2: "list_all (\<lambda>r. map_of r ''price'' \<noteq> None)
              [[(''price'', ''999'')], [(''price'', ''1'')], [(''price'', ''abc'')]]"
    by simp
  from filter_rows_eq_depends_on_column [OF p float_py_999 c1]
    filter_rows_eq_depends_on_column [OF p float_py_999 c2]
  show ?thesis
    by (simp add: float_py_999 float_py_1 float_py_abc)
qed

text \<open>The claim as stated names string semantics as the cause.  As strings, the cell
  \<^verbatim>\<open>999\<close> and the literal \<^verbatim>\<open>999\<close> of \<^verbatim>\<open>price=999\<close> are equal, so under
  string semantics the row would be kept; \<^verbatim>\<open>filter_rows\<close> drops it.\<close>

theorem filter_rows_fallback_not_string:
  "parse_condition ''price=999'' = Inr (''price'', Eq, ''999'') \<and>
   map_of [(''price'', ''999'')] ''price'' = Some ''999'' \<and>
   apply_op Eq (Text ''999'') (Text ''999'') = Inr True \<and>
   filter_rows [[(''price'', ''999'')], [(''price'', ''abc'')]] (Some ''price=999'') = Inr []"
proof -
  have p: "parse_condition ''price=999'' = Inr (''price'', Eq, ''999'')"
    by (simp add: parse_condition_def OPERATORS_def str_defs)
  then show ?thesis
    by (simp add: filter_rows_def getitem_def float_py_999 float_py_abc)
qed

end
